theory Spec2Isabelle
  imports Complex_Main
begin

section \<open>Python values: exceptions, list indexing, floor division\<close>

text \<open>
  The pool of \<^verbatim>\<open>curvesim/pool/stableswap/pool.py\<close> computes on Python's unbounded
  integers (gmpy2's \<^verbatim>\<open>mpz\<close> has the same arithmetic), modelled as \<^typ>\<open>int\<close>:
  \<^verbatim>\<open>//\<close> is floor division, which is \<open>div\<close> on \<^typ>\<open>int\<close>, except that a zero
  divisor raises \<^verbatim>\<open>ZeroDivisionError\<close>. The first five constructors are the
  exceptions the modelled code can raise. \<open>NumericNotConverged\<close> and \<open>InvalidInputs\<close>
  are the error kinds named by the specification's error model; no statement of the
  source raises them, they are here so that this can be stated.
\<close>

datatype error =
  ZeroDivisionError | IndexError | AssertionError | ValueError | OverflowError
  | NumericNotConverged | InvalidInputs

text \<open>
  A computation either raises, returns, or runs forever: \<open>Some (Inl e)\<close>,
  \<open>Some (Inr v)\<close>, \<open>None\<close>.
\<close>

type_synonym 'a comp = "(error + 'a) option"

definition raise :: "error \<Rightarrow> 'a comp" where
  "raise e = Some (Inl e)"

definition ret :: "'a \<Rightarrow> 'a comp" where
  "ret v = Some (Inr v)"

definition bnd :: "'a comp \<Rightarrow> ('a \<Rightarrow> 'b comp) \<Rightarrow> 'b comp" where
  "bnd m f = (case m of None \<Rightarrow> None | Some (Inl e) \<Rightarrow> Some (Inl e) | Some (Inr v) \<Rightarrow> f v)"

text \<open>\<^verbatim>\<open>a // b\<close>.\<close>

definition floordiv :: "int \<Rightarrow> int \<Rightarrow> int comp" where
  "floordiv a b = (if b = 0 then raise ZeroDivisionError else ret (a div b))"

text \<open>
  \<^verbatim>\<open>xs[i]\<close>: an index in \<open>[-len, len)\<close> is valid, a negative one counts from the end.
\<close>

definition py_index :: "'a list \<Rightarrow> int \<Rightarrow> nat option" where
  "py_index xs i =
     (let len = int (length xs)
      in if 0 \<le> i \<and> i < len then Some (nat i)
         else if - len \<le> i \<and> i < 0 then Some (nat (len + i))
         else None)"

definition py_get :: "'a list \<Rightarrow> int \<Rightarrow> 'a comp" where
  "py_get xs i = (case py_index xs i of None \<Rightarrow> raise IndexError | Some k \<Rightarrow> ret (xs ! k))"

definition py_set :: "'a list \<Rightarrow> int \<Rightarrow> 'a \<Rightarrow> 'a list comp" where
  "py_set xs i v = (case py_index xs i of None \<Rightarrow> raise IndexError | Some k \<Rightarrow> ret (xs[k := v]))"

text \<open>\<^verbatim>\<open>range(n)\<close>, empty when \<open>n \<le> 0\<close>.\<close>

definition py_range :: "int \<Rightarrow> int list" where
  "py_range n = [0..n - 1]"

section \<open>The pool object and the lists it owns\<close>

text \<open>
  Python lists are objects: \<^verbatim>\<open>xp_reduced = xp\<close> makes two names for one list, and
  \<^verbatim>\<open>self.x[i] += dx\<close> changes the list every holder of it sees. The lists the code
  updates in place therefore live in a heap of cells, addressed by references; a
  fresh list takes the next free reference. \<^verbatim>\<open>self.p\<close> is never updated in place and
  is kept as a value.
\<close>

type_synonym ref = nat

record heap =
  cells :: "ref \<Rightarrow> int list"
  next_ref :: ref

definition new_list :: "int list \<Rightarrow> heap \<Rightarrow> ref \<times> heap" where
  "new_list v h = (next_ref h, h\<lparr>cells := (cells h)(next_ref h := v), next_ref := Suc (next_ref h)\<rparr>)"

definition load :: "heap \<Rightarrow> ref \<Rightarrow> int list" where
  "load h a = cells h a"

definition store :: "heap \<Rightarrow> ref \<Rightarrow> int list \<Rightarrow> heap" where
  "store h a v = h\<lparr>cells := (cells h)(a := v)\<rparr>"

text \<open>
  The attributes of \<^verbatim>\<open>self\<close>, each under the name \<open>pool_\<close> + its Python name.
  \<open>pool_x\<close> and \<open>pool_admin_balances\<close> hold references.
\<close>

record pool =
  pool_A :: int
  pool_n :: int
  pool_fee :: int
  pool_p :: "int list"
  pool_x :: ref
  pool_tokens :: int
  pool_fee_mul :: "int option"
  pool_admin_fee :: int
  pool_r :: bool
  pool_n_total :: int
  pool_admin_balances :: ref

text \<open>
  \<^verbatim>\<open>_xp\<close>: \<^verbatim>\<open>[x * p // 10**18 for x, p in zip(self.x, self.p)]\<close>, a new list.
\<close>

definition xp_of :: "int list \<Rightarrow> int list \<Rightarrow> int list" where
  "xp_of xs ps = map (\<lambda>(x, p). x * p div 10 ^ 18) (zip xs ps)"

definition pool_xp :: "pool \<Rightarrow> heap \<Rightarrow> int list" where
  "pool_xp s h = xp_of (load h (pool_x s)) (pool_p s)"

section \<open>The invariant solver\<close>

subsection \<open>\<^verbatim>\<open>get_D\<close>\<close>

text \<open>
  The inner loop \<^verbatim>\<open>for x in xp: D_P = D_P * D // (n * x)\<close>.
\<close>

fun D_P_loop :: "int \<Rightarrow> int \<Rightarrow> int list \<Rightarrow> int \<Rightarrow> error + int" where
  "D_P_loop n D [] D_P = Inr D_P"
| "D_P_loop n D (x # xs) D_P =
     (if n * x = 0 then Inl ZeroDivisionError else D_P_loop n D xs (D_P * D div (n * x)))"

text \<open>
  The body of \<^verbatim>\<open>while abs(D - Dprev) > 1\<close>, from \<^verbatim>\<open>D\<close> to the next \<^verbatim>\<open>D\<close>.
\<close>

definition get_D_body :: "int \<Rightarrow> int \<Rightarrow> int \<Rightarrow> int list \<Rightarrow> int \<Rightarrow> error + int" where
  "get_D_body n Ann S xp D =
     (case D_P_loop n D xp D of
        Inl e \<Rightarrow> Inl e
      | Inr D_P \<Rightarrow>
          if (Ann - 1) * D + (n + 1) * D_P = 0 then Inl ZeroDivisionError
          else Inr ((Ann * S + D_P * n) * D div ((Ann - 1) * D + (n + 1) * D_P)))"

text \<open>
  The loop, with its variables as arguments. The last argument counts the
  iterations made so far; it is not in the source and no result depends on it.
\<close>

partial_function (option) get_D_while ::
  "int \<Rightarrow> int \<Rightarrow> int \<Rightarrow> int list \<Rightarrow> int \<Rightarrow> int \<Rightarrow> nat \<Rightarrow> ((error + int) \<times> nat) option" where
  "get_D_while n Ann S xp D Dprev k =
     (if \<bar>D - Dprev\<bar> > 1 then
        (case get_D_body n Ann S xp D of
           Inl e \<Rightarrow> Some (Inl e, k)
         | Inr D' \<Rightarrow> get_D_while n Ann S xp D' D (Suc k))
      else Some (Inr D, k))"

text \<open>
  \<^verbatim>\<open>get_D(self, xp, A)\<close> with the number of iterations of its loop. The source
  reads \<^verbatim>\<open>self.A\<close> and \<^verbatim>\<open>self.n\<close>; its parameter \<^verbatim>\<open>A\<close> is not used.
\<close>

definition get_D_iters :: "pool \<Rightarrow> int list \<Rightarrow> int \<Rightarrow> ((error + int) \<times> nat) option" where
  "get_D_iters s xp A_arg =
     (let S = sum_list xp; n = pool_n s; Ann = pool_A s * n
      in get_D_while n Ann S xp S 0 0)"

definition get_D :: "pool \<Rightarrow> int list \<Rightarrow> int \<Rightarrow> int comp" where
  "get_D s xp A_arg = map_option fst (get_D_iters s xp A_arg)"

text \<open>
  \<^verbatim>\<open>D(self, xp=None)\<close>: \<^verbatim>\<open>xp = xp or self._xp()\<close> takes the pool's own balances
  when the argument is absent or an empty list.
\<close>

definition pool_D :: "pool \<Rightarrow> heap \<Rightarrow> int list option \<Rightarrow> int comp" where
  "pool_D s h xp_arg =
     (let xp = (case xp_arg of None \<Rightarrow> pool_xp s h
                | Some xs \<Rightarrow> if xs = [] then pool_xp s h else xs)
      in get_D s xp (pool_A s))"

definition get_D_mem :: "pool \<Rightarrow> int list \<Rightarrow> int \<Rightarrow> int comp" where
  "get_D_mem s balances A_arg = get_D s (xp_of balances (pool_p s)) A_arg"

subsection \<open>\<^verbatim>\<open>get_y\<close> and \<^verbatim>\<open>get_y_D\<close>\<close>

text \<open>
  \<^verbatim>\<open>[xx[k] for k in range(n) if k != j]\<close>: the test compares the loop's index with
  \<open>j\<close> as given, so a negative \<open>j\<close> removes nothing.
\<close>

fun others :: "int list \<Rightarrow> int \<Rightarrow> int list \<Rightarrow> int list comp" where
  "others xx j [] = ret []"
| "others xx j (k # ks) =
     (if k \<noteq> j then bnd (py_get xx k) (\<lambda>v. bnd (others xx j ks) (\<lambda>vs. ret (v # vs)))
      else others xx j ks)"

text \<open>\<^verbatim>\<open>for y in xx: c = c * D // (y * n)\<close>.\<close>

fun c_loop :: "int \<Rightarrow> int \<Rightarrow> int list \<Rightarrow> int \<Rightarrow> error + int" where
  "c_loop n D [] c = Inr c"
| "c_loop n D (y # ys) c =
     (if y * n = 0 then Inl ZeroDivisionError else c_loop n D ys (c * D div (y * n)))"

text \<open>
  The Newton loop of \<^verbatim>\<open>get_y\<close>:
  \<^verbatim>\<open>while abs(y - y_prev) > 1: y_prev = y; y = (y**2 + c) // (2 * y + b)\<close>.
\<close>

partial_function (option) get_y_while :: "int \<Rightarrow> int \<Rightarrow> int \<Rightarrow> int \<Rightarrow> int comp" where
  "get_y_while c b y y_prev =
     (if \<bar>y - y_prev\<bar> > 1 then
        (if 2 * y + b = 0 then Some (Inl ZeroDivisionError)
         else get_y_while c b ((y\<^sup>2 + c) div (2 * y + b)) y)
      else Some (Inr y))"

text \<open>
  The Newton loop of \<^verbatim>\<open>get_y_D\<close>:
  \<^verbatim>\<open>while abs(y - y_prev) > 1: y_prev = y; y = (y**2 + c) // (2 * y + b - D)\<close>.
\<close>

partial_function (option) get_y_D_while :: "int \<Rightarrow> int \<Rightarrow> int \<Rightarrow> int \<Rightarrow> int \<Rightarrow> int comp" where
  "get_y_D_while c b D y y_prev =
     (if \<bar>y - y_prev\<bar> > 1 then
        (if 2 * y + b - D = 0 then Some (Inl ZeroDivisionError)
         else get_y_D_while c b D ((y\<^sup>2 + c) div (2 * y + b - D)) y)
      else Some (Inr y))"

text \<open>
  \<^verbatim>\<open>get_y(self, i, j, x, xp)\<close>. \<^verbatim>\<open>xx = xp[:]\<close> is a copy that no other name holds,
  so the list is a value here.
\<close>

definition get_y :: "pool \<Rightarrow> heap \<Rightarrow> int \<Rightarrow> int \<Rightarrow> int \<Rightarrow> int list \<Rightarrow> int comp" where
  "get_y s h i j x xp =
     bnd (pool_D s h (Some xp)) (\<lambda>D.
     bnd (py_set xp i x) (\<lambda>xx.
     let n = pool_n s in
     bnd (others xx j (py_range n)) (\<lambda>xx.
     let Ann = pool_A s * n in
     bnd (Some (c_loop n D xx D)) (\<lambda>c.
     bnd (floordiv (c * D) (n * Ann)) (\<lambda>c.
     bnd (floordiv D Ann) (\<lambda>q.
     let b = sum_list xx + q - D in
     get_y_while c b D 0))))))"

text \<open>\<^verbatim>\<open>get_y_D(self, A, i, xp, D)\<close>: here the parameter \<^verbatim>\<open>A\<close> is the one used.\<close>

definition get_y_D :: "pool \<Rightarrow> int \<Rightarrow> int \<Rightarrow> int list \<Rightarrow> int \<Rightarrow> int comp" where
  "get_y_D s A_arg i xp D =
     (let n = pool_n s in
      bnd (others xp i (py_range n)) (\<lambda>xx.
      let S = sum_list xx; Ann = A_arg * n in
      bnd (Some (c_loop n D xx D)) (\<lambda>c.
      bnd (floordiv (c * D) (n * Ann)) (\<lambda>c.
      bnd (floordiv D Ann) (\<lambda>q.
      let b = S + q in
      get_y_D_while c b D D 0)))))"

text \<open>\<^verbatim>\<open>dynamic_fee(self, xpi, xpj)\<close>, called only when \<^verbatim>\<open>self.fee_mul\<close> is set.\<close>

definition dynamic_fee :: "pool \<Rightarrow> int \<Rightarrow> int \<Rightarrow> int \<Rightarrow> int comp" where
  "dynamic_fee s fee_mul xpi xpj =
     (let xps2 = xpi + xpj; xps2 = xps2 * xps2 in
      bnd (floordiv ((fee_mul - 10 ^ 10) * 4 * xpi * xpj) xps2) (\<lambda>q.
      floordiv (fee_mul * pool_fee s) (q + 10 ^ 10)))"

section \<open>Pool operations\<close>

text \<open>
  An operation of the pool runs on the state \<open>(self, heap)\<close>. It raises or returns, with the state it
  leaves behind (an exception does not undo the writes made before it), or it never
  returns.
\<close>

type_synonym ('s, 'a) prog = "'s \<Rightarrow> ((error + 'a) \<times> 's) option"

definition sret :: "'a \<Rightarrow> ('s, 'a) prog" where
  "sret v = (\<lambda>st. Some (Inr v, st))"

definition sbind :: "('s, 'a) prog \<Rightarrow> ('a \<Rightarrow> ('s, 'b) prog) \<Rightarrow> ('s, 'b) prog" where
  "sbind m f =
     (\<lambda>st. case m st of
              None \<Rightarrow> None
            | Some (Inl e, st') \<Rightarrow> Some (Inl e, st')
            | Some (Inr v, st') \<Rightarrow> f v st')"

text \<open>A computation that touches no state.\<close>

definition lift :: "'a comp \<Rightarrow> ('s, 'a) prog" where
  "lift c = (\<lambda>st. case c of None \<Rightarrow> None | Some r \<Rightarrow> Some (r, st))"

text \<open>\<^verbatim>\<open>for k in ks: body(k)\<close>.\<close>

fun for_each :: "'k list \<Rightarrow> ('k \<Rightarrow> ('s, unit) prog) \<Rightarrow> ('s, unit) prog" where
  "for_each [] body = sret ()"
| "for_each (k # ks) body = sbind (body k) (\<lambda>_. for_each ks body)"

text \<open>The state of an operation of the pool, and reading \<^verbatim>\<open>self\<close> and the heap.\<close>

type_synonym state = "pool \<times> heap"

type_synonym 'a pool_prog = "(state, 'a) prog"

definition self :: "pool pool_prog" where
  "self = (\<lambda>st. Some (Inr (fst st), st))"

definition the_heap :: "heap pool_prog" where
  "the_heap = (\<lambda>st. Some (Inr (snd st), st))"

definition read :: "ref \<Rightarrow> int list pool_prog" where
  "read a = (\<lambda>st. Some (Inr (load (snd st) a), st))"

text \<open>A new list object.\<close>

definition alloc :: "int list \<Rightarrow> ref pool_prog" where
  "alloc v = (\<lambda>st. let (a, h') = new_list v (snd st) in Some (Inr a, (fst st, h')))"

text \<open>\<^verbatim>\<open>xs[i]\<close> and \<^verbatim>\<open>xs[i] = v\<close> on the list at a reference.\<close>

definition get_item :: "ref \<Rightarrow> int \<Rightarrow> int pool_prog" where
  "get_item a i = (\<lambda>st. case py_get (load (snd st) a) i of None \<Rightarrow> None | Some r \<Rightarrow> Some (r, st))"

definition set_item :: "ref \<Rightarrow> int \<Rightarrow> int \<Rightarrow> unit pool_prog" where
  "set_item a i v =
     (\<lambda>st. case py_index (load (snd st) a) i of
              None \<Rightarrow> Some (Inl IndexError, st)
            | Some k \<Rightarrow> Some (Inr (), (fst st, store (snd st) a ((load (snd st) a)[k := v]))))"

text \<open>Assignment to an attribute of \<^verbatim>\<open>self\<close>.\<close>

definition assign :: "(pool \<Rightarrow> pool) \<Rightarrow> unit pool_prog" where
  "assign upd = (\<lambda>st. Some (Inr (), (upd (fst st), snd st)))"

subsection \<open>\<^verbatim>\<open>exchange\<close>\<close>

text \<open>
  \<^verbatim>\<open>xp = self._xp()\<close> is a new list that \<^verbatim>\<open>exchange\<close> only reads, a value here.
  The three updates at the end are made in place, on \<^verbatim>\<open>self.x\<close> and
  \<^verbatim>\<open>self.admin_balances\<close>.
\<close>

definition exchange :: "int \<Rightarrow> int \<Rightarrow> int \<Rightarrow> (int \<times> int) pool_prog" where
  "exchange i j dx =
     sbind self (\<lambda>s.
     sbind the_heap (\<lambda>h.
     let xp = pool_xp s h in
     sbind (lift (py_get xp i)) (\<lambda>xp_i.
     sbind (lift (py_get (pool_p s) i)) (\<lambda>p_i.
     let x = xp_i + dx * p_i div 10 ^ 18 in
     sbind (lift (get_y s h i j x xp)) (\<lambda>y.
     sbind (lift (py_get xp j)) (\<lambda>xp_j.
     let dy = xp_j - y - 1 in
     sbind (case pool_fee_mul s of
              None \<Rightarrow> sret (dy * pool_fee s div 10 ^ 10)
            | Some fee_mul \<Rightarrow>
                sbind (lift (dynamic_fee s fee_mul ((xp_i + x) div 2) ((xp_j + y) div 2)))
                  (\<lambda>f. sret (dy * f div 10 ^ 10))) (\<lambda>fee.
     let admin_fee = fee * pool_admin_fee s div 10 ^ 10 in
     sbind (lift (py_get (pool_p s) j)) (\<lambda>rate.
     sbind (lift (floordiv ((dy - fee) * 10 ^ 18) rate)) (\<lambda>dy.
     sbind (lift (floordiv (fee * 10 ^ 18) rate)) (\<lambda>fee.
     sbind (lift (floordiv (admin_fee * 10 ^ 18) rate)) (\<lambda>admin_fee.
     sbind (lift (if dy \<ge> 0 then ret () else raise AssertionError)) (\<lambda>_.
     sbind (get_item (pool_x s) i) (\<lambda>v.
     sbind (set_item (pool_x s) i (v + dx)) (\<lambda>_.
     sbind (get_item (pool_x s) j) (\<lambda>v.
     sbind (set_item (pool_x s) j (v - (dy + admin_fee))) (\<lambda>_.
     sbind (get_item (pool_admin_balances s) j) (\<lambda>v.
     sbind (set_item (pool_admin_balances s) j (v + admin_fee)) (\<lambda>_.
     sret (dy, fee)))))))))))))))))))"

subsection \<open>The constructor\<close>

text \<open>
  \<^verbatim>\<open>D\<close> is an integer or a list; a list becomes \<^verbatim>\<open>self.x\<close> itself, not a copy.
\<close>

datatype D_arg = D_int int | D_list ref

text \<open>\<^verbatim>\<open>[D // n * 10**18 // _p for _p in p]\<close>.\<close>

fun split_D :: "int \<Rightarrow> int \<Rightarrow> int list \<Rightarrow> int list comp" where
  "split_D D n [] = ret []"
| "split_D D n (p1 # ps) =
     bnd (floordiv D n) (\<lambda>q.
     bnd (floordiv (q * 10 ^ 18) p1) (\<lambda>v.
     bnd (split_D D n ps) (\<lambda>vs. ret (v # vs))))"

text \<open>
  \<^verbatim>\<open>p = p or [10**18] * n\<close>: the default for an absent and for an empty \<^verbatim>\<open>p\<close>.
\<close>

definition p_or_default :: "int list option \<Rightarrow> int \<Rightarrow> int list" where
  "p_or_default p_arg n =
     (case p_arg of
        None \<Rightarrow> replicate (nat n) (10 ^ 18)
      | Some ps \<Rightarrow> if ps = [] then replicate (nat n) (10 ^ 18) else ps)"

text \<open>
  \<^verbatim>\<open>if isinstance(D, list): x = D\<close>, \<^verbatim>\<open>else: x = [D // n * 10**18 // _p for _p in p]\<close>:
  the reference that \<^verbatim>\<open>self.x\<close> will hold.
\<close>

definition initial_x :: "D_arg \<Rightarrow> int \<Rightarrow> int list \<Rightarrow> heap \<Rightarrow> ((error + ref) \<times> heap) option" where
  "initial_x D n p h =
     (case D of
        D_list a \<Rightarrow> Some (Inr a, h)
      | D_int d \<Rightarrow>
          (case split_D d n p of
             None \<Rightarrow> None
           | Some (Inl e) \<Rightarrow> Some (Inl e, h)
           | Some (Inr v) \<Rightarrow> Some (Inr (fst (new_list v h)), snd (new_list v h))))"

text \<open>
  \<^verbatim>\<open>tokens or self.D()\<close>: \<^verbatim>\<open>self.D()\<close> is called for an absent and for a zero
  \<^verbatim>\<open>tokens\<close>.
\<close>

definition tokens_or_D :: "int option \<Rightarrow> pool \<Rightarrow> heap \<Rightarrow> int comp" where
  "tokens_or_D tokens_arg s h =
     (case tokens_arg of
        None \<Rightarrow> pool_D s h None
      | Some t \<Rightarrow> if t = 0 then pool_D s h None else ret t)"

text \<open>
  \<^verbatim>\<open>Pool(A, D, n, p, tokens, fee, fee_mul, admin_fee)\<close>, run on a heap; an absent
  argument is \<open>None\<close>. The assignments follow the source's order, so \<^verbatim>\<open>self.D()\<close> runs
  on the attributes set before it: the record \<open>s\<close> below holds them, and the attributes
  not yet set, which \<^verbatim>\<open>self.D()\<close> does not read, stand at a placeholder until their
  assignment.
\<close>

definition Pool ::
  "int \<Rightarrow> D_arg \<Rightarrow> int \<Rightarrow> int list option \<Rightarrow> int option \<Rightarrow> int \<Rightarrow> int option \<Rightarrow> int \<Rightarrow>
   heap \<Rightarrow> ((error + pool) \<times> heap) option" where
  "Pool A D n p_arg tokens_arg fee fee_mul admin_fee h =
     (let p = p_or_default p_arg n
      in case initial_x D n p h of
           None \<Rightarrow> None
         | Some (Inl e, h1) \<Rightarrow> Some (Inl e, h1)
         | Some (Inr x, h1) \<Rightarrow>
             (let s = \<lparr>pool_A = A, pool_n = n, pool_fee = fee, pool_p = p, pool_x = x,
                       pool_tokens = 0, pool_fee_mul = None, pool_admin_fee = 0,
                       pool_r = False, pool_n_total = 0, pool_admin_balances = 0\<rparr>
              in case tokens_or_D tokens_arg s h1 of
                   None \<Rightarrow> None
                 | Some (Inl e) \<Rightarrow> Some (Inl e, h1)
                 | Some (Inr t) \<Rightarrow>
                     (let (ab, h2) = new_list (replicate (nat n) 0) h1
                      in Some (Inr (s\<lparr>pool_tokens := t, pool_fee_mul := fee_mul,
                                       pool_admin_fee := admin_fee, pool_r := False,
                                       pool_n_total := n, pool_admin_balances := ab\<rparr>), h2))))"

subsection \<open>\<^verbatim>\<open>calc_withdraw_one_coin\<close>\<close>

text \<open>
  \<^verbatim>\<open>xp = self._xp()\<close> is a new list object and \<^verbatim>\<open>xp_reduced = xp\<close> a second name for
  it: the two variables hold one reference. The result is \<^verbatim>\<open>(dy, dy_fee)\<close> when
  \<^verbatim>\<open>use_fee\<close> is true and \<^verbatim>\<open>dy\<close> alone otherwise, here \<open>(dy, Some dy_fee)\<close> and
  \<open>(dy, None)\<close>.
\<close>

definition calc_withdraw_one_coin :: "int \<Rightarrow> int \<Rightarrow> bool \<Rightarrow> (int \<times> int option) pool_prog" where
  "calc_withdraw_one_coin token_amount i use_fee =
     sbind self (\<lambda>s.
     let A = pool_A s in
     sbind the_heap (\<lambda>h.
     sbind (alloc (pool_xp s h)) (\<lambda>xp.
     sbind the_heap (\<lambda>h.
     sbind (lift (pool_D s h None)) (\<lambda>D0.
     sbind (lift (floordiv (token_amount * D0) (pool_tokens s))) (\<lambda>q.
     let D1 = D0 - q in
     sbind (read xp) (\<lambda>xp_list.
     sbind (lift (get_y_D s A i xp_list D1)) (\<lambda>new_y.
     sbind (get_item xp i) (\<lambda>xp_i.
     sbind (lift (py_get (pool_p s) i)) (\<lambda>p_i.
     sbind (lift (floordiv ((xp_i - new_y) * 10 ^ 18) p_i)) (\<lambda>dy_before_fee.
     let xp_reduced = xp in
     sbind (if pool_fee s \<noteq> 0 \<and> use_fee then
              (let n_coins = pool_n s in
               sbind (lift (floordiv (pool_fee s * n_coins) (4 * (n_coins - 1)))) (\<lambda>fee'.
               for_each (py_range n_coins) (\<lambda>j.
                 sbind (get_item xp j) (\<lambda>xp_j.
                 sbind (lift (floordiv (xp_j * D1) D0)) (\<lambda>q.
                 let dx_expected = (if j = i then q - new_y else xp_j - q) in
                 sbind (get_item xp_reduced j) (\<lambda>v.
                 set_item xp_reduced j (v - fee' * dx_expected div 10 ^ 10)))))))
            else sret ()) (\<lambda>_.
     sbind (get_item xp i) (\<lambda>xp_i.
     sbind (read xp_reduced) (\<lambda>xp_reduced_list.
     sbind (lift (get_y_D s A i xp_reduced_list D1)) (\<lambda>y.
     let dy = xp_i - y in
     sbind (lift (py_get (pool_p s) i)) (\<lambda>p_i.
     sbind (lift (floordiv ((dy - 1) * 10 ^ 18) p_i)) (\<lambda>dy.
     if use_fee then sret (dy, Some (dy_before_fee - dy)) else sret (dy, None))))))))))))))))))"

subsection \<open>\<^verbatim>\<open>calc_token_amount\<close> and \<^verbatim>\<open>add_liquidity\<close>\<close>

text \<open>
  \<^verbatim>\<open>old_balances = self.x\<close> is a second name for the pool's own list;
  \<^verbatim>\<open>new_balances = self.x[:]\<close>, \<^verbatim>\<open>mint_balances = new_balances[:]\<close> and
  \<^verbatim>\<open>fees = [0] * self.n\<close> are new lists. \<^verbatim>\<open>amounts\<close> is the caller's list, which the
  operation only reads. The result is \<^verbatim>\<open>(mint_amount, fees)\<close> when \<^verbatim>\<open>use_fee\<close> is true,
  with the content of \<^verbatim>\<open>fees\<close> at the return, and \<^verbatim>\<open>mint_amount\<close> alone otherwise.
\<close>

definition calc_token_amount :: "int list \<Rightarrow> bool \<Rightarrow> (int \<times> int list option) pool_prog" where
  "calc_token_amount amounts use_fee =
     sbind self (\<lambda>s.
     let A = pool_A s; old_balances = pool_x s in
     sbind (read old_balances) (\<lambda>old_list.
     sbind (lift (get_D_mem s old_list A)) (\<lambda>D0.
     sbind (sbind (read (pool_x s)) alloc) (\<lambda>new_balances.
     sbind (for_each (py_range (pool_n s)) (\<lambda>i.
              sbind (get_item new_balances i) (\<lambda>v.
              sbind (lift (py_get amounts i)) (\<lambda>a.
              set_item new_balances i (v + a))))) (\<lambda>_.
     sbind (read new_balances) (\<lambda>new_list.
     sbind (lift (get_D_mem s new_list A)) (\<lambda>D1.
     sbind (sbind (read new_balances) alloc) (\<lambda>mint_balances.
     sbind (if use_fee then
              sbind (lift (floordiv (pool_fee s * pool_n s) (4 * (pool_n s - 1)))) (\<lambda>fee'.
              sbind (alloc (replicate (nat (pool_n s)) 0)) (\<lambda>fees.
              sbind (for_each (py_range (pool_n s)) (\<lambda>i.
                       sbind (get_item old_balances i) (\<lambda>old_i.
                       sbind (lift (floordiv (D1 * old_i) D0)) (\<lambda>ideal_balance.
                       sbind (get_item new_balances i) (\<lambda>new_i.
                       let difference = \<bar>ideal_balance - new_i\<bar> in
                       sbind (set_item fees i (fee' * difference div 10 ^ 10)) (\<lambda>_.
                       sbind (get_item mint_balances i) (\<lambda>m.
                       sbind (get_item fees i) (\<lambda>f.
                       set_item mint_balances i (m - f))))))))) (\<lambda>_.
              sbind (read fees) (\<lambda>fees_list. sret (Some fees_list)))))
            else sret None) (\<lambda>fees.
     sbind (read mint_balances) (\<lambda>mint_list.
     sbind (lift (get_D_mem s mint_list A)) (\<lambda>D2.
     sbind (lift (floordiv (pool_tokens s * (D2 - D0)) D0)) (\<lambda>mint_amount.
     sret (mint_amount, fees)))))))))))))"

text \<open>
  \<^verbatim>\<open>add_liquidity\<close> binds \<^verbatim>\<open>self.x\<close> and \<^verbatim>\<open>self.admin_balances\<close> to new lists.
\<close>

definition add_liquidity :: "int list \<Rightarrow> int pool_prog" where
  "add_liquidity amounts =
     sbind (calc_token_amount amounts True) (\<lambda>(mint_amount, fees_opt).
     let fees = (case fees_opt of Some fs \<Rightarrow> fs | None \<Rightarrow> []) in
     sbind (assign (\<lambda>s. s\<lparr>pool_tokens := pool_tokens s + mint_amount\<rparr>)) (\<lambda>_.
     sbind self (\<lambda>s.
     sbind (read (pool_x s)) (\<lambda>balances.
     let afee = pool_admin_fee s;
         admin_fees = map (\<lambda>f. f * afee div 10 ^ 10) fees;
         new_balances = map (\<lambda>(bal, amt, fee). bal + amt - fee)
                          (zip balances (zip amounts admin_fees)) in
     sbind (alloc new_balances) (\<lambda>x'.
     sbind (assign (\<lambda>s. s\<lparr>pool_x := x'\<rparr>)) (\<lambda>_.
     sbind (read (pool_admin_balances s)) (\<lambda>ab.
     sbind (alloc (map (\<lambda>(t, a). t + a) (zip ab admin_fees))) (\<lambda>ab'.
     sbind (assign (\<lambda>s. s\<lparr>pool_admin_balances := ab'\<rparr>)) (\<lambda>_.
     sret mint_amount)))))))))"

subsection \<open>\<^verbatim>\<open>remove_liquidity_one_coin\<close>\<close>

definition remove_liquidity_one_coin :: "int \<Rightarrow> int \<Rightarrow> (int \<times> int) pool_prog" where
  "remove_liquidity_one_coin token_amount i =
     sbind (calc_withdraw_one_coin token_amount i True) (\<lambda>(dy, dy_fee_opt).
     let dy_fee = (case dy_fee_opt of Some f \<Rightarrow> f | None \<Rightarrow> 0) in
     sbind self (\<lambda>s.
     let admin_fee = dy_fee * pool_admin_fee s div 10 ^ 10 in
     sbind (get_item (pool_x s) i) (\<lambda>v.
     sbind (set_item (pool_x s) i (v - (dy + admin_fee))) (\<lambda>_.
     sbind (get_item (pool_admin_balances s) i) (\<lambda>v.
     sbind (set_item (pool_admin_balances s) i (v + admin_fee)) (\<lambda>_.
     sbind (assign (\<lambda>s. s\<lparr>pool_tokens := pool_tokens s - token_amount\<rparr>)) (\<lambda>_.
     sret (dy, dy_fee))))))))"

section \<open>The volume-limited arbitrage driver\<close>

text \<open>
  \<^verbatim>\<open>curvesim/pipelines/vol_limited_arb/trader.py\<close> computes on floats. A float is
  NaN, an infinity or a finite number, and a finite float is modelled by its exact
  value. \<^verbatim>\<open>isnan\<close>, \<^verbatim>\<open>int\<close> and comparison are exact on values and are
  defined here; arithmetic that rounds (\<^verbatim>\<open>limit * 10**18\<close>, \<^verbatim>\<open>price - target\<close>) is
  not defined but taken as a parameter.
\<close>

datatype pyfloat = Finite real | NaN | PosInf | NegInf

text \<open>
  The trade sizes handed to the residual are floats when the solver calls it and the
  integers of \<^verbatim>\<open>[0] * len(sizes)\<close> in the error handler.
\<close>

datatype number = Integer int | Float pyfloat

definition isnan :: "number \<Rightarrow> bool" where
  "isnan d = (case d of Float NaN \<Rightarrow> True | _ \<Rightarrow> False)"

text \<open>\<^verbatim>\<open>int(x)\<close> truncates towards zero and raises on NaN and on an infinity.\<close>

definition float_int :: "pyfloat \<Rightarrow> int comp" where
  "float_int x =
     (case x of
        Finite v \<Rightarrow> ret (if 0 \<le> v then \<lfloor>v\<rfloor> else \<lceil>v\<rceil>)
      | NaN \<Rightarrow> raise ValueError
      | PosInf \<Rightarrow> raise OverflowError
      | NegInf \<Rightarrow> raise OverflowError)"

definition number_int :: "number \<Rightarrow> int comp" where
  "number_int d = (case d of Integer k \<Rightarrow> ret k | Float x \<Rightarrow> float_int x)"

record float_arith =
  times_1e18 :: "pyfloat \<Rightarrow> pyfloat"
  minus :: "pyfloat \<Rightarrow> pyfloat \<Rightarrow> pyfloat"

text \<open>
  The pool the driver trades on is a simulation interface whose code is not among the
  sources: \<^verbatim>\<open>pool.trade(i, j, dx)\<close> and \<^verbatim>\<open>pool.price(i, j, use_fee=True)\<close> are
  parameters here, over any type \<open>'p\<close> of pool states.
\<close>

record 'p sim_pool =
  trade :: "int \<Rightarrow> int \<Rightarrow> int \<Rightarrow> ('p, unit) prog"
  price :: "int \<Rightarrow> int \<Rightarrow> ('p, pyfloat) prog"

text \<open>
  Modelled from the spec: \<^verbatim>\<open>pool.use_snapshot_context()\<close>, whose code is not among the
  sources. Section 4.4 of the specification: clone the mutable state, run the body,
  then restore the state unconditionally, on success and on failure.
\<close>

definition use_snapshot_context :: "('p, 'a) prog \<Rightarrow> ('p, 'a) prog" where
  "use_snapshot_context body =
     (\<lambda>st. case body st of None \<Rightarrow> None | Some (r, st') \<Rightarrow> Some (r, st))"

text \<open>\<^verbatim>\<open>xs[k]\<close> for the index of an \<^verbatim>\<open>enumerate\<close>.\<close>

definition item :: "'a list \<Rightarrow> nat \<Rightarrow> 'a comp" where
  "item xs k = (if k < length xs then ret (xs ! k) else raise IndexError)"

text \<open>
  \<^verbatim>\<open>post_trade_price_error_multi(dxs, price_targets, coins)\<close>: its two loops over
  \<^verbatim>\<open>enumerate(coins)\<close>, inside one snapshot.
\<close>

fun trade_loop :: "'p sim_pool \<Rightarrow> number list \<Rightarrow> (nat \<times> int \<times> int) list \<Rightarrow> ('p, unit) prog" where
  "trade_loop pool dxs [] = sret ()"
| "trade_loop pool dxs ((k, i, j) # rest) =
     sbind (lift (item dxs k)) (\<lambda>d.
     sbind (lift (if isnan d then ret 0 else number_int d)) (\<lambda>dx.
     sbind (if dx > 0 then trade pool i j dx else sret ()) (\<lambda>_.
     trade_loop pool dxs rest)))"

fun error_loop ::
  "'p sim_pool \<Rightarrow> float_arith \<Rightarrow> pyfloat list \<Rightarrow> (nat \<times> int \<times> int) list \<Rightarrow>
   ('p, pyfloat list) prog" where
  "error_loop pool fa price_targets [] = sret []"
| "error_loop pool fa price_targets ((k, i, j) # rest) =
     sbind (price pool i j) (\<lambda>pr.
     sbind (lift (item price_targets k)) (\<lambda>target.
     sbind (error_loop pool fa price_targets rest) (\<lambda>errors.
     sret (minus fa pr target # errors))))"

definition post_trade_price_error_multi ::
  "'p sim_pool \<Rightarrow> float_arith \<Rightarrow> number list \<Rightarrow> pyfloat list \<Rightarrow> (int \<times> int) list \<Rightarrow>
   ('p, pyfloat list) prog" where
  "post_trade_price_error_multi pool fa dxs price_targets coins =
     use_snapshot_context
       (sbind (trade_loop pool dxs (enumerate 0 coins)) (\<lambda>_.
        error_loop pool fa price_targets (enumerate 0 coins)))"

text \<open>
  The first loop of \<^verbatim>\<open>multipair_optimal_arbitrage\<close>, over
  \<^verbatim>\<open>zip(init_trades, limits)\<close>: a seed \<^verbatim>\<open>(size, pair, price_target)\<close> becomes
  \<^verbatim>\<open>(min(size, limit), pair, price_target, 0, limit + 1)\<close> with
  \<^verbatim>\<open>limit = int(limit * 10**18)\<close>.
\<close>

type_synonym seed = "int \<times> (int \<times> int) \<times> pyfloat"

type_synonym limited_seed = "int \<times> (int \<times> int) \<times> pyfloat \<times> int \<times> int"

fun limit_trades :: "float_arith \<Rightarrow> (seed \<times> pyfloat) list \<Rightarrow> limited_seed list comp" where
  "limit_trades fa [] = ret []"
| "limit_trades fa (((sz, pair, price_target), limit) # rest) =
     bnd (float_int (times_1e18 fa limit)) (\<lambda>limit.
     bnd (limit_trades fa rest) (\<lambda>ts.
     ret ((min sz limit, pair, price_target, 0, limit + 1) # ts)))"

text \<open>
  The loop that formats the solver's \<^verbatim>\<open>res.x\<close> into trades. It runs inside the
  \<^verbatim>\<open>try\<close>: an exception leaves the trades appended so far in \<^verbatim>\<open>trades\<close>. The result
  is that list, and the exception if there was one.
\<close>

fun format_trades ::
  "(int \<times> int) list \<Rightarrow> (nat \<times> pyfloat) list \<Rightarrow> (int \<times> int \<times> int) list \<Rightarrow>
   (int \<times> int \<times> int) list \<times> error option" where
  "format_trades coins [] trades = (trades, None)"
| "format_trades coins ((k, dx) # rest) trades =
     (if isnan (Float dx) then format_trades coins rest trades
      else case float_int dx of
             None \<Rightarrow> (trades, None)
           | Some (Inl e) \<Rightarrow> (trades, Some e)
           | Some (Inr dx) \<Rightarrow>
               if dx > 0 then
                 (case item coins k of
                    Some (Inr (i, j)) \<Rightarrow> format_trades coins rest (trades @ [(i, j, dx)])
                  | Some (Inl e) \<Rightarrow> (trades, Some e)
                  | None \<Rightarrow> (trades, None))
               else format_trades coins rest trades)"

text \<open>
  \<^verbatim>\<open>multipair_optimal_arbitrage(pool, prices, limits)\<close>. Its parameters here:
  \<^item> \<open>least_squares\<close> is SciPy's solver, called with the residual, \<^verbatim>\<open>x0\<close> and the
    bounds \<^verbatim>\<open>(lo, hi)\<close>; it returns \<^verbatim>\<open>(res.x, res.fun)\<close> or raises.
  \<^item> \<open>init_trades\<close> is the value of \<^verbatim>\<open>get_arb_trades(pool, prices)\<close>, which is computed
    with SciPy's root finder.
  The result is \<^verbatim>\<open>(trades, errors, res)\<close>, with \<open>None\<close> for the \<^verbatim>\<open>res = []\<close> of the
  error handler. \<^verbatim>\<open>sorted(..., reverse=True, key=...)\<close> is stable, as \<open>sort_key\<close> on
  the negated key is. \<^verbatim>\<open>zip(*limited_init_trades)\<close> has nothing to unpack when the
  list is empty and raises \<^verbatim>\<open>ValueError\<close>.
\<close>

type_synonym residual = "number list \<Rightarrow> pyfloat list comp"

type_synonym solver =
  "residual \<Rightarrow> int list \<Rightarrow> int list \<Rightarrow> int list \<Rightarrow> (pyfloat list \<times> pyfloat list) comp"

definition multipair_optimal_arbitrage ::
  "'p sim_pool \<Rightarrow> float_arith \<Rightarrow> solver \<Rightarrow> seed list \<Rightarrow> pyfloat list \<Rightarrow>
   ('p, (int \<times> int \<times> int) list \<times> pyfloat list \<times> (pyfloat list \<times> pyfloat list) option) prog" where
  "multipair_optimal_arbitrage pool fa least_squares init_trades limits =
     sbind (lift (limit_trades fa (zip init_trades limits))) (\<lambda>limited_init_trades.
     let limited_init_trades = sort_key (\<lambda>t. - fst t) limited_init_trades in
     if limited_init_trades = [] then lift (raise ValueError)
     else
       (let sizes = map fst limited_init_trades;
            coins = map (\<lambda>(sz, pair, target, lo, hi). pair) limited_init_trades;
            price_targets = map (\<lambda>(sz, pair, target, lo, hi). target) limited_init_trades;
            lo = map (\<lambda>(sz, pair, target, lo, hi). lo) limited_init_trades;
            hi = map (\<lambda>(sz, pair, target, lo, hi). hi) limited_init_trades;
            at_zero =
              sbind (post_trade_price_error_multi pool fa
                       (replicate (length sizes) (Integer 0)) price_targets coins)
                (\<lambda>errors. sret errors)
        in (\<lambda>st.
              case least_squares
                     (\<lambda>dxs. map_option fst
                        (post_trade_price_error_multi pool fa dxs price_targets coins st))
                     sizes lo hi of
                None \<Rightarrow> None
              | Some (Inl e) \<Rightarrow> sbind at_zero (\<lambda>errors. sret ([], errors, None)) st
              | Some (Inr (x, residuals)) \<Rightarrow>
                  (case format_trades coins (enumerate 0 x) [] of
                     (trades, None) \<Rightarrow> Some (Inr (trades, residuals, Some (x, residuals)), st)
                   | (trades, Some e) \<Rightarrow>
                       sbind at_zero (\<lambda>errors. sret (trades, errors, None)) st))))"

section \<open>Definitions the statements use\<close>

text \<open>
  The Newton iteration of \<^verbatim>\<open>get_y_D\<close> as the specification words it: "identical to
  \<^verbatim>\<open>get_y\<close> except \<^verbatim>\<open>D\<close> is the supplied argument and \<^verbatim>\<open>b = S + D/Ann\<close> (no
  \<^verbatim>\<open>-D\<close>)", that is the loop of \<^verbatim>\<open>get_y\<close>, whose denominator is \<^verbatim>\<open>2y + b\<close>, run with
  that \<^verbatim>\<open>b\<close>. It is compared below with \<open>get_y_D\<close>, which follows the source.
\<close>

definition get_y_D_spec :: "pool \<Rightarrow> int \<Rightarrow> int \<Rightarrow> int list \<Rightarrow> int \<Rightarrow> int comp" where
  "get_y_D_spec s A_arg i xp D =
     (let n = pool_n s in
      bnd (others xp i (py_range n)) (\<lambda>xx.
      let S = sum_list xx; Ann = A_arg * n in
      bnd (Some (c_loop n D xx D)) (\<lambda>c.
      bnd (floordiv (c * D) (n * Ann)) (\<lambda>c.
      bnd (floordiv D Ann) (\<lambda>q.
      let b = S + q in
      get_y_while c b D 0)))))"

text \<open>
  A list passed to the constructor is a list that exists: its reference is below the
  heap's next free one.
\<close>

definition valid_D :: "D_arg \<Rightarrow> heap \<Rightarrow> bool" where
  "valid_D D h = (case D of D_int d \<Rightarrow> True | D_list a \<Rightarrow> a < next_ref h)"

text \<open>The heap before any list is made.\<close>

definition empty_heap :: heap where
  "empty_heap = \<lparr>cells = (\<lambda>_. []), next_ref = 0\<rparr>"

text \<open>
  Two-coin pools with \<^verbatim>\<open>A = 250\<close> and the default fees, as
  \<^verbatim>\<open>Pool(A=250, D=..., n=2)\<close> leaves them: \<^verbatim>\<open>self.x\<close> at reference 0 and
  \<^verbatim>\<open>self.admin_balances\<close> at reference 1.
\<close>

definition pool_250 :: "int \<Rightarrow> pool" where
  "pool_250 tokens =
     \<lparr>pool_A = 250, pool_n = 2, pool_fee = 4000000, pool_p = [10 ^ 18, 10 ^ 18],
      pool_x = 0, pool_tokens = tokens, pool_fee_mul = None, pool_admin_fee = 0,
      pool_r = False, pool_n_total = 2, pool_admin_balances = 1\<rparr>"

definition heap_250 :: "int \<Rightarrow> int \<Rightarrow> heap" where
  "heap_250 x0 x1 = \<lparr>cells = (\<lambda>_. [])(0 := [x0, x1], 1 := [0, 0]), next_ref = 2\<rparr>"

text \<open>
  The values of \<^verbatim>\<open>D\<close> in the loop of \<^verbatim>\<open>get_D\<close>.  \<open>D_seq k\<close> is \<^verbatim>\<open>D\<close> after \<open>k\<close> runs of the loop
  body, from \<^verbatim>\<open>D = S\<close>, an error of the body staying; \<open>Dprev_seq k\<close> is \<^verbatim>\<open>Dprev\<close> then, which is
  0 before the first run and the \<^verbatim>\<open>D\<close> of the run before afterwards.  \<open>loops_on k\<close> is the loop's
  test \<^verbatim>\<open>abs(D - Dprev) > 1\<close> on these values.
\<close>

fun D_seq :: "int \<Rightarrow> int \<Rightarrow> int \<Rightarrow> int list \<Rightarrow> nat \<Rightarrow> error + int" where
  "D_seq n Ann S xp 0 = Inr S"
| "D_seq n Ann S xp (Suc k) =
     (case D_seq n Ann S xp k of Inl e \<Rightarrow> Inl e | Inr D \<Rightarrow> get_D_body n Ann S xp D)"

definition Dprev_seq :: "int \<Rightarrow> int \<Rightarrow> int \<Rightarrow> int list \<Rightarrow> nat \<Rightarrow> error + int" where
  "Dprev_seq n Ann S xp k = (case k of 0 \<Rightarrow> Inr 0 | Suc j \<Rightarrow> D_seq n Ann S xp j)"

definition loops_on :: "int \<Rightarrow> int \<Rightarrow> int \<Rightarrow> int list \<Rightarrow> nat \<Rightarrow> bool" where
  "loops_on n Ann S xp k =
     (case (D_seq n Ann S xp k, Dprev_seq n Ann S xp k) of
        (Inr D, Inr Dprev) \<Rightarrow> \<bar>D - Dprev\<bar> > 1
      | _ \<Rightarrow> False)"

text \<open>A two-coin pool with \<^verbatim>\<open>A = 1\<close>.\<close>

definition pool_A1 :: pool where
  "pool_A1 = (pool_250 2)\<lparr>pool_A := 1\<rparr>"

text \<open>
  What a pool operation may touch.  \<open>frame N st st'\<close>: the pool object is the same in \<open>st'\<close> as in
  \<open>st\<close>, and so is every list at an address below \<open>N\<close>.  \<open>keeps N m\<close>: started with all addresses
  below \<open>N\<close> allocated, \<open>m\<close> ends in such a state, whatever it returns or raises.  \<open>fresh N m\<close>: the
  address \<open>m\<close> returns is not below \<open>N\<close>.
\<close>

definition frame :: "nat \<Rightarrow> state \<Rightarrow> state \<Rightarrow> bool" where
  "frame N st st' =
     (fst st' = fst st \<and> N \<le> next_ref (snd st') \<and> (\<forall>a<N. cells (snd st') a = cells (snd st) a))"

definition keeps :: "nat \<Rightarrow> 'a pool_prog \<Rightarrow> bool" where
  "keeps N m = (\<forall>st r st'. N \<le> next_ref (snd st) \<longrightarrow> m st = Some (r, st') \<longrightarrow> frame N st st')"

definition fresh :: "nat \<Rightarrow> ref pool_prog \<Rightarrow> bool" where
  "fresh N m = (\<forall>st a st'. N \<le> next_ref (snd st) \<longrightarrow> m st = Some (Inr a, st') \<longrightarrow> N \<le> a)"

text \<open>
  \<open>outcome Q m st\<close>: whenever \<open>m\<close>, started in \<open>st\<close>, ends, what it returns or raises and the state
  it leaves satisfy \<open>Q\<close>.
\<close>

definition outcome :: "((error + 'a) \<Rightarrow> state \<Rightarrow> bool) \<Rightarrow> 'a pool_prog \<Rightarrow> state \<Rightarrow> bool" where
  "outcome Q m st = (\<forall>r st'. m st = Some (r, st') \<longrightarrow> Q r st')"

text \<open>
  \<open>raises_only E m\<close>: whenever \<open>m\<close> raises, the error is one of \<open>E\<close>.
\<close>

definition raises_only :: "error set \<Rightarrow> ('s, 'a) prog \<Rightarrow> bool" where
  "raises_only E m = (\<forall>st e st'. m st = Some (Inl e, st') \<longrightarrow> e \<in> E)"

text \<open>
  The loop of \<^verbatim>\<open>calc_withdraw_one_coin\<close>,
  \<^verbatim>\<open>for j in range(n_coins): ... xp_reduced[j] -= _fee * dx_expected // 10**10\<close>, as a function
  of the list it starts from: \<open>shrink_at\<close> is what one pass makes of the entry \<open>x\<close> at index \<open>j\<close>,
  \<open>shrink_range a b\<close> the list after the passes for the indices from \<open>a\<close> to \<open>b\<close>, and \<open>fee_shrink\<close>
  the list after \<^verbatim>\<open>if self.fee and use_fee: ...\<close> with \<^verbatim>\<open>use_fee\<close> true.  That the loop of the
  model leaves these lists is proved below.
\<close>

definition shrink_at :: "int \<Rightarrow> int \<Rightarrow> int \<Rightarrow> int \<Rightarrow> int \<Rightarrow> int \<Rightarrow> int \<Rightarrow> int" where
  "shrink_at fee' D0 D1 new_y i j x =
     x - fee' * (if j = i then x * D1 div D0 - new_y else x - x * D1 div D0) div 10 ^ 10"

definition shrink_range ::
  "int \<Rightarrow> int \<Rightarrow> int \<Rightarrow> int \<Rightarrow> int \<Rightarrow> int \<Rightarrow> int \<Rightarrow> int list \<Rightarrow> int list" where
  "shrink_range a b fee' D0 D1 new_y i xp =
     map (\<lambda>(k, x). if a \<le> int k \<and> int k \<le> b then shrink_at fee' D0 D1 new_y i (int k) x else x)
       (enumerate 0 xp)"

definition fee_shrink :: "pool \<Rightarrow> int \<Rightarrow> int \<Rightarrow> int \<Rightarrow> int \<Rightarrow> int list \<Rightarrow> int list" where
  "fee_shrink s i D0 D1 new_y xp =
     (if pool_fee s \<noteq> 0 then
        (let n = pool_n s; fee' = pool_fee s * n div (4 * (n - 1))
         in shrink_range 0 (n - 1) fee' D0 D1 new_y i xp)
      else xp)"

text \<open>
  A pool for examples of the driver, with no state, whose \<^verbatim>\<open>trade\<close> does nothing and whose
  \<^verbatim>\<open>price\<close> is 1; float arithmetic without rounding; and a solver that raises \<^verbatim>\<open>ValueError\<close>.
\<close>

definition pool_const :: "unit sim_pool" where
  "pool_const = \<lparr>trade = (\<lambda>i j dx st. Some (Inr (), st)),
                 price = (\<lambda>i j st. Some (Inr (Finite 1), st))\<rparr>"

definition fa_exact :: float_arith where
  "fa_exact = \<lparr>times_1e18 = (\<lambda>x. case x of Finite v \<Rightarrow> Finite (v * 10 ^ 18) | _ \<Rightarrow> x),
               minus = (\<lambda>a b. case (a, b) of (Finite x, Finite y) \<Rightarrow> Finite (x - y) | _ \<Rightarrow> NaN)\<rparr>"








section \<open>Rules for evaluating the model\<close>

lemmas comp_defs = raise_def ret_def bnd_def floordiv_def py_index_def py_get_def py_set_def
  py_range_def upto.simps

lemmas heap_defs = new_list_def load_def store_def empty_heap_def

lemmas Pool_defs = Pool_def p_or_default_def initial_x_def tokens_or_D_def

lemmas prog_defs = sret_def sbind_def lift_def self_def the_heap_def read_def alloc_def
  get_item_def set_item_def assign_def

lemmas solver_defs = get_D_body_def get_D_iters_def get_D_def pool_D_def get_D_mem_def
  get_y_def get_y_D_def dynamic_fee_def xp_of_def pool_xp_def
  get_D_while.simps get_y_while.simps get_y_D_while.simps

lemma replicate_numeral: "replicate (numeral k) x = x # replicate (pred_numeral k) x"
  by (simp add: numeral_eq_Suc)

section \<open>The Newton loop of \<^verbatim>\<open>get_D\<close>\<close>

lemma D_P_loop_error: "D_P_loop n D xs D_P = Inl e \<Longrightarrow> e = ZeroDivisionError"
  by (induction xs arbitrary: D_P) (auto split: if_splits)

lemma get_D_body_error: "get_D_body n Ann S xp D = Inl e \<Longrightarrow> e = ZeroDivisionError"
  by (auto simp: get_D_body_def split: sum.splits if_splits dest: D_P_loop_error)

text \<open>
  What the loop returns, by induction on its runs: an error is a zero divisor, and a
  value \<open>D'\<close> is the loop's own start, when no iteration was made, or what the body made
  of an iterate \<open>Dp\<close> within 1 of it.
\<close>

lemma get_D_while_exit:
  "get_D_while n Ann S xp D Dprev k = Some res \<Longrightarrow>
     k \<le> snd res \<and>
     (case fst res of
        Inl e \<Rightarrow> e = ZeroDivisionError
      | Inr D' \<Rightarrow>
          if snd res = k then D' = D \<and> \<bar>D - Dprev\<bar> \<le> 1
          else \<exists>Dp. get_D_body n Ann S xp Dp = Inr D' \<and> \<bar>D' - Dp\<bar> \<le> 1)"
proof (rule get_D_while.raw_induct[where P = "\<lambda>n Ann S xp D Dprev k res. k \<le> snd res \<and>
         (case fst res of
            Inl e \<Rightarrow> e = ZeroDivisionError
          | Inr D' \<Rightarrow>
              if snd res = k then D' = D \<and> \<bar>D - Dprev\<bar> \<le> 1
              else \<exists>Dp. get_D_body n Ann S xp Dp = Inr D' \<and> \<bar>D' - Dp\<bar> \<le> 1)"], goal_cases)
  case (1 W n Ann S xp D Dprev k res)
  note IH = \<open>\<And>n Ann S xp D Dprev k res. W n Ann S xp D Dprev k = Some res \<Longrightarrow> _\<close>
  note eq = \<open>(if 1 < \<bar>D - Dprev\<bar> then _ else _) = Some res\<close>
  show ?case
  proof (cases "\<bar>D - Dprev\<bar> > 1")
    case False
    with eq show ?thesis by auto
  next
    case True
    show ?thesis
    proof (cases "get_D_body n Ann S xp D")
      case (Inl e)
      with True eq show ?thesis by (auto dest: get_D_body_error)
    next
      case (Inr D1)
      with True eq have W: "W n Ann S xp D1 D (Suc k) = Some res" by simp
      from IH[OF W] have le: "Suc k \<le> snd res" and
        c: "(case fst res of Inl e \<Rightarrow> e = ZeroDivisionError
            | Inr D' \<Rightarrow> if snd res = Suc k then D' = D1 \<and> \<bar>D1 - D\<bar> \<le> 1
                        else \<exists>Dp. get_D_body n Ann S xp Dp = Inr D' \<and> \<bar>D' - Dp\<bar> \<le> 1)"
        by auto
      show ?thesis
      proof (cases "fst res")
        case (Inl e)
        with le c show ?thesis by auto
      next
        case (Inr D')
        with le c \<open>get_D_body n Ann S xp D = Inr D1\<close> show ?thesis
          by (cases "snd res = Suc k") auto
      qed
    qed
  qed
qed

text \<open>
  The loop against the values of \<open>D_seq\<close>: while the test holds the loop goes on, at the first
  \<open>k\<close> where it fails the loop ends, and if it never fails the loop does not end.
\<close>

lemma loops_onD:
  "loops_on n Ann S xp k \<Longrightarrow>
     \<exists>D Dp. D_seq n Ann S xp k = Inr D \<and> Dprev_seq n Ann S xp k = Inr Dp \<and> \<bar>D - Dp\<bar> > 1"
  by (auto simp: loops_on_def split: sum.splits)

lemma D_seq_error: "D_seq n Ann S xp k = Inl e \<Longrightarrow> e = ZeroDivisionError"
  by (induction k) (auto split: sum.splits dest: get_D_body_error)

lemma get_D_while_unroll:
  assumes "\<forall>j<k. loops_on n Ann S xp j"
  shows "get_D_while n Ann S xp S 0 0 =
     (case D_seq n Ann S xp k of
        Inl e \<Rightarrow> Some (Inl e, k - 1)
      | Inr D \<Rightarrow> (case Dprev_seq n Ann S xp k of
                   Inl e \<Rightarrow> None
                 | Inr Dp \<Rightarrow> get_D_while n Ann S xp D Dp k))"
  using assms
proof (induction k)
  case 0
  show ?case by (simp add: Dprev_seq_def)
next
  case (Suc k)
  then have IH: "get_D_while n Ann S xp S 0 0 =
     (case D_seq n Ann S xp k of
        Inl e \<Rightarrow> Some (Inl e, k - 1)
      | Inr D \<Rightarrow> (case Dprev_seq n Ann S xp k of
                   Inl e \<Rightarrow> None
                 | Inr Dp \<Rightarrow> get_D_while n Ann S xp D Dp k))"
    by simp
  from Suc.prems have "loops_on n Ann S xp k" by simp
  from loops_onD[OF this] obtain D Dp where
    D: "D_seq n Ann S xp k = Inr D" and Dp: "Dprev_seq n Ann S xp k = Inr Dp"
    and gt: "\<bar>D - Dp\<bar> > 1" by blast
  from IH D Dp have "get_D_while n Ann S xp S 0 0 = get_D_while n Ann S xp D Dp k" by simp
  also from gt have "\<dots> = (case get_D_body n Ann S xp D of
           Inl e \<Rightarrow> Some (Inl e, k)
         | Inr D' \<Rightarrow> get_D_while n Ann S xp D' D (Suc k))"
    by (subst get_D_while.simps) simp
  finally show ?case using D by (simp add: Dprev_seq_def split: sum.splits)
qed

lemma get_D_while_stops:
  assumes "\<forall>j<k. loops_on n Ann S xp j" and "\<not> loops_on n Ann S xp k"
  shows "get_D_while n Ann S xp S 0 0 =
     Some (D_seq n Ann S xp k, case D_seq n Ann S xp k of Inl e \<Rightarrow> k - 1 | Inr D \<Rightarrow> k)"
proof (cases "D_seq n Ann S xp k")
  case (Inl e)
  with get_D_while_unroll[OF assms(1)] show ?thesis by simp
next
  case (Inr D)
  have "\<exists>Dp. Dprev_seq n Ann S xp k = Inr Dp"
  proof (cases k)
    case 0
    then show ?thesis by (simp add: Dprev_seq_def)
  next
    case (Suc j)
    with assms(1) have "loops_on n Ann S xp j" by simp
    from loops_onD[OF this] Suc show ?thesis by (auto simp: Dprev_seq_def)
  qed
  then obtain Dp where Dp: "Dprev_seq n Ann S xp k = Inr Dp" ..
  with Inr assms(2) have le: "\<not> \<bar>D - Dp\<bar> > 1" by (simp add: loops_on_def)
  from get_D_while_unroll[OF assms(1)] Inr Dp
  have "get_D_while n Ann S xp S 0 0 = get_D_while n Ann S xp D Dp k" by simp
  also from le have "\<dots> = Some (Inr D, k)" by (subst get_D_while.simps) simp
  finally show ?thesis using Inr by simp
qed

lemma get_D_while_loops:
  assumes all: "\<forall>j. loops_on n Ann S xp j"
  shows "get_D_while n' Ann' S' xp' D Dprev k = Some res \<Longrightarrow>
     \<not> (n' = n \<and> Ann' = Ann \<and> S' = S \<and> xp' = xp \<and>
        D_seq n Ann S xp k = Inr D \<and> Dprev_seq n Ann S xp k = Inr Dprev)"
proof (rule get_D_while.raw_induct[where P = "\<lambda>n' Ann' S' xp' D Dprev k res.
     \<not> (n' = n \<and> Ann' = Ann \<and> S' = S \<and> xp' = xp \<and>
        D_seq n Ann S xp k = Inr D \<and> Dprev_seq n Ann S xp k = Inr Dprev)"], goal_cases)
  case (1 W n' Ann' S' xp' D Dprev k res)
  note IH = \<open>\<And>n Ann S xp D Dprev k res. W n Ann S xp D Dprev k = Some res \<Longrightarrow> _\<close>
  note eq = \<open>(if 1 < \<bar>D - Dprev\<bar> then _ else _) = Some res\<close>
  show ?case
  proof
    assume a: "n' = n \<and> Ann' = Ann \<and> S' = S \<and> xp' = xp \<and>
        D_seq n Ann S xp k = Inr D \<and> Dprev_seq n Ann S xp k = Inr Dprev"
    from all have "loops_on n Ann S xp k" by simp
    with a have gt: "\<bar>D - Dprev\<bar> > 1" by (simp add: loops_on_def)
    from all have "loops_on n Ann S xp (Suc k)" by simp
    from loops_onD[OF this] a obtain D' where
      D': "get_D_body n Ann S xp D = Inr D'" and s: "D_seq n Ann S xp (Suc k) = Inr D'"
      by auto
    with a gt eq have "W n Ann S xp D' D (Suc k) = Some res" by simp
    from IH[OF this] s a show False by (simp add: Dprev_seq_def)
  qed
qed

lemma get_D_while_never:
  assumes "\<forall>j. loops_on n Ann S xp j"
  shows "get_D_while n Ann S xp S 0 0 = None"
proof (cases "get_D_while n Ann S xp S 0 0")
  case None
  then show ?thesis .
next
  case (Some res)
  from get_D_while_loops[OF assms Some] show ?thesis by (simp add: Dprev_seq_def)
qed

text \<open>
  C2, as amended.  The loop of \<^verbatim>\<open>get_D\<close> has no bound on its iterations and no
  \<open>NumericNotConverged\<close>.  With \<open>D\<^sub>0 = sum(xp)\<close>, \<open>D\<^sub>k\<^sub>+\<^sub>1\<close> the loop body's result on \<open>D\<^sub>k\<close>, and 0
  for the value before \<open>D\<^sub>0\<close>: if \<open>k\<close> is the first index at which \<open>|D\<^sub>k - D\<^sub>k\<^sub>-\<^sub>1| > 1\<close> fails,
  whatever \<open>k\<close> is, \<^verbatim>\<open>get_D\<close> makes \<open>k\<close> iterations and returns \<open>D\<^sub>k\<close>, or, when the body raised in
  its run \<open>k\<close>, raises that error, which is \<^verbatim>\<open>ZeroDivisionError\<close>; and if the test fails at no
  index, \<^verbatim>\<open>get_D\<close> does not return.
\<close>

theorem get_D_first_delta_1:
  "((\<forall>j<k. loops_on (pool_n s) (pool_A s * pool_n s) (sum_list xp) xp j)
      \<and> \<not> loops_on (pool_n s) (pool_A s * pool_n s) (sum_list xp) xp k \<longrightarrow>
        get_D_iters s xp A_arg =
          Some (D_seq (pool_n s) (pool_A s * pool_n s) (sum_list xp) xp k,
                case D_seq (pool_n s) (pool_A s * pool_n s) (sum_list xp) xp k of
                  Inl e \<Rightarrow> k - 1 | Inr D \<Rightarrow> k)
        \<and> get_D s xp A_arg = Some (D_seq (pool_n s) (pool_A s * pool_n s) (sum_list xp) xp k)
        \<and> (\<forall>e. D_seq (pool_n s) (pool_A s * pool_n s) (sum_list xp) xp k = Inl e
               \<longrightarrow> e = ZeroDivisionError))
   \<and> ((\<forall>j. loops_on (pool_n s) (pool_A s * pool_n s) (sum_list xp) xp j) \<longrightarrow>
        get_D s xp A_arg = None)"
  by (auto simp: get_D_def get_D_iters_def Let_def get_D_while_stops get_D_while_never
      dest: D_seq_error)

text \<open>
  With \<^verbatim>\<open>A = 1\<close>, \<^verbatim>\<open>n = 2\<close> and \<^verbatim>\<open>xp = [33, 1]\<close> the values of \<^verbatim>\<open>D\<close> are
  34, 24, 20, 18, 20, 18, ...: the test holds at every index.
\<close>

lemma get_D_body_A1:
  "get_D_body 2 2 34 [33, 1] 34 = Inr 24" "get_D_body 2 2 34 [33, 1] 24 = Inr 20"
  "get_D_body 2 2 34 [33, 1] 20 = Inr 18" "get_D_body 2 2 34 [33, 1] 18 = Inr 20"
  by (simp_all add: get_D_body_def)

lemma D_seq_A1:
  "D_seq 2 2 34 [33, 1] (Suc (Suc (2 * m))) = Inr 20 \<and>
   D_seq 2 2 34 [33, 1] (Suc (Suc (Suc (2 * m)))) = Inr 18"
  by (induction m) (simp_all add: get_D_body_A1)

lemma loops_on_A1: "loops_on 2 2 34 [33, 1] j"
proof -
  have "j = 0 \<or> j = Suc 0 \<or> j = Suc (Suc 0) \<or> (\<exists>m. j = Suc (Suc (Suc (2 * m))))
    \<or> (\<exists>m. j = Suc (Suc (Suc (Suc (2 * m)))))"
    by presburger
  then consider "j = 0" | "j = Suc 0" | "j = Suc (Suc 0)"
    | m where "j = Suc (Suc (Suc (2 * m)))" | m where "j = Suc (Suc (Suc (Suc (2 * m))))"
    by blast
  then show ?thesis
  proof cases
    case 1
    then show ?thesis by (simp add: loops_on_def Dprev_seq_def)
  next
    case 2
    then show ?thesis by (simp add: loops_on_def Dprev_seq_def get_D_body_A1)
  next
    case 3
    then show ?thesis by (simp add: loops_on_def Dprev_seq_def get_D_body_A1)
  next
    case (4 m)
    from D_seq_A1[of m] have "D_seq 2 2 34 [33, 1] (Suc (Suc (2 * m))) = Inr 20"
      and "D_seq 2 2 34 [33, 1] (Suc (Suc (Suc (2 * m)))) = Inr 18" by blast+
    with 4 show ?thesis by (simp add: loops_on_def Dprev_seq_def del: D_seq.simps)
  next
    case (5 m)
    from D_seq_A1[of m] have a: "D_seq 2 2 34 [33, 1] (Suc (Suc (Suc (2 * m)))) = Inr 18"
      by blast
    have "D_seq 2 2 34 [33, 1] (Suc (Suc (Suc (Suc (2 * m))))) = Inr 20"
      by (subst D_seq.simps) (simp only: a sum.case get_D_body_A1)
    with a 5 show ?thesis by (simp add: loops_on_def Dprev_seq_def del: D_seq.simps)
  qed
qed

text \<open>
  The theorem at \<^verbatim>\<open>xp = [157, 11]\<close> with \<^verbatim>\<open>A = 250\<close>, where the test holds at index 0 and
  fails at index 1: one iteration, which returns 167.  And at \<^verbatim>\<open>xp = [33, 1]\<close> with
  \<^verbatim>\<open>A = 1\<close>, where the test holds at every index.
\<close>

theorem get_D_first_delta_1_witness:
  "loops_on 2 500 168 [157, 11] 0 \<and> \<not> loops_on 2 500 168 [157, 11] 1
   \<and> get_D_iters (pool_250 168) [157, 11] 250 = Some (Inr 167, 1)
   \<and> get_D (pool_250 168) [157, 11] 250 = Some (Inr 167)
   \<and> (\<forall>j. loops_on 2 2 34 [33, 1] j) \<and> get_D pool_A1 [33, 1] 1 = None"
proof -
  have d: "D_seq 2 500 168 [157, 11] (Suc 0) = Inr 167"
    by (simp add: get_D_body_def)
  have l0: "loops_on 2 500 168 [157, 11] 0"
    by (simp add: loops_on_def Dprev_seq_def)
  have l1: "\<not> loops_on 2 500 168 [157, 11] 1"
    using d by (simp add: loops_on_def Dprev_seq_def del: D_seq.simps) simp
  have p: "pool_n (pool_250 168) = 2" "pool_A (pool_250 168) = 250"
    "pool_n pool_A1 = 2" "pool_A pool_A1 = 1"
    by (simp_all add: pool_250_def pool_A1_def)
  from get_D_first_delta_1 [of 1 "pool_250 168" "[157, 11]" 250] l0 l1 d
  have a: "get_D_iters (pool_250 168) [157, 11] 250 = Some (Inr 167, 1)
     \<and> get_D (pool_250 168) [157, 11] 250 = Some (Inr 167)"
    by (simp add: p del: D_seq.simps)
  from get_D_first_delta_1 [of 0 pool_A1 "[33, 1]" 1] loops_on_A1
  have b: "get_D pool_A1 [33, 1] 1 = None"
    by (simp add: p del: D_seq.simps)
  from l0 l1 a b loops_on_A1 show ?thesis by blast
qed

text \<open>
  C2 as stated fails: with \<^verbatim>\<open>A = 1\<close>, \<^verbatim>\<open>n = 2\<close> and the positive balances
  \<^verbatim>\<open>xp = [33, 1]\<close> the loop neither stops after 255 iterations nor raises: \<^verbatim>\<open>get_D\<close> does not
  return.
\<close>

theorem get_D_runs_forever: "get_D pool_A1 [33, 1] 1 = None"
  using get_D_while_never[of 2 2 34 "[33, 1]"] loops_on_A1
  by (simp add: get_D_def get_D_iters_def pool_A1_def pool_250_def)

section \<open>The Newton loop of \<^verbatim>\<open>get_y_D\<close>\<close>

lemma get_y_D_while_le:
  "get_y_D_while c b D y yp = Some r \<Longrightarrow> get_y_while c (b - D) y yp = Some r"
proof (rule get_y_D_while.raw_induct[where
      P = "\<lambda>c b D y yp r. get_y_while c (b - D) y yp = Some r"], goal_cases)
  case (1 W c b D y yp r)
  then show ?case
    by (subst get_y_while.simps) (auto split: if_splits simp: algebra_simps)
qed

lemma get_y_while_le:
  "get_y_while c b' y yp = Some r \<Longrightarrow> get_y_D_while c (b' + D) D y yp = Some r"
proof (rule get_y_while.raw_induct[where
      P = "\<lambda>c b' y yp r. get_y_D_while c (b' + D) D y yp = Some r"], goal_cases)
  case (1 W c b' y yp r)
  then show ?case
    by (subst get_y_D_while.simps) (auto split: if_splits)
qed

text \<open>
  The two loops make the same iterates: the loop of \<^verbatim>\<open>get_y_D\<close> on \<open>b\<close> is the loop of
  \<^verbatim>\<open>get_y\<close> on \<open>b - D\<close>, whether they return, raise or run forever.
\<close>

lemma get_y_D_while_eq: "get_y_D_while c b D y yp = get_y_while c (b - D) y yp"
proof (cases "get_y_D_while c b D y yp")
  case None
  then show ?thesis
    using get_y_while_le[of c "b - D" y yp _ D]
    by (cases "get_y_while c (b - D) y yp") auto
next
  case (Some r)
  then show ?thesis using get_y_D_while_le by simp
qed

text \<open>
  C5, as amended. \<^verbatim>\<open>get_y_D\<close> runs the Newton iteration of \<^verbatim>\<open>get_y\<close>,
  \<open>y <- (y^2 + c) / (2y + b)\<close>, from \<open>y = D\<close> with \<open>D\<close> the supplied argument and with
  \<open>b = S + D/Ann - D\<close>, the \<open>b\<close> of \<^verbatim>\<open>get_y\<close>: the source keeps \<open>S + D/Ann\<close> in its
  variable \<^verbatim>\<open>b\<close> and subtracts \<open>D\<close> in the denominator, which is
  \<open>2y + S + floor(D/Ann) - D\<close> at every step.
\<close>

theorem get_y_D_iteration:
  "get_y_D s A_arg i xp D =
     (let n = pool_n s in
      bnd (others xp i (py_range n)) (\<lambda>xx.
      let S = sum_list xx; Ann = A_arg * n in
      bnd (Some (c_loop n D xx D)) (\<lambda>c.
      bnd (floordiv (c * D) (n * Ann)) (\<lambda>c.
      bnd (floordiv D Ann) (\<lambda>q.
      get_y_while c (S + q - D) D 0)))))"
  by (simp add: get_y_D_def get_y_D_while_eq Let_def)

text \<open>
  C5 as stated fails: for \<^verbatim>\<open>xp = [1000, 1000]\<close>, \<^verbatim>\<open>A = 250\<close> and \<^verbatim>\<open>D = 1900\<close> the
  source's \<^verbatim>\<open>get_y_D\<close> returns 900, and the iteration with the denominator
  \<open>2y + S + floor(D/Ann)\<close> returns 3.
\<close>

theorem get_y_D_differs_from_spec:
  "get_y_D (pool_250 2000) 250 0 [1000, 1000] 1900 = Some (Inr 900) \<and>
   get_y_D_spec (pool_250 2000) 250 0 [1000, 1000] 1900 = Some (Inr 3)"
  by (simp add: comp_defs solver_defs get_y_D_spec_def pool_250_def Let_def)

section \<open>The constructor\<close>

lemma pool_D_cong:
  "pool_A s' = pool_A s \<Longrightarrow> pool_n s' = pool_n s \<Longrightarrow> pool_p s' = pool_p s \<Longrightarrow>
   load h' (pool_x s') = load h (pool_x s) \<Longrightarrow> pool_D s' h' xp = pool_D s h xp"
  by (cases xp) (simp_all add: pool_D_def pool_xp_def get_D_def get_D_iters_def)

lemma initial_x_valid:
  "valid_D D h \<Longrightarrow> initial_x D n p h = Some (Inr x, h1) \<Longrightarrow> x < next_ref h1"
  by (auto simp: valid_D_def initial_x_def new_list_def
      split: D_arg.splits option.splits sum.splits)

lemma tokens_or_D_zero: "tokens_or_D (Some 0) = tokens_or_D None"
  by (simp add: tokens_or_D_def fun_eq_iff)

text \<open>
  C10, as amended. A construction with \<^verbatim>\<open>tokens=0\<close> is the construction with the
  argument omitted, and the constructed pool's \<^verbatim>\<open>tokens\<close> is \<^verbatim>\<open>D()\<close> of its initial
  balances; so \<^verbatim>\<open>tokens\<close> is 0 exactly when that \<^verbatim>\<open>D()\<close> is 0.
\<close>

theorem Pool_tokens_zero_is_D:
  assumes "valid_D D h"
  shows "Pool A D n p (Some 0) fee fee_mul admin_fee h = Pool A D n p None fee fee_mul admin_fee h
       \<and> (\<forall>s h'. Pool A D n p (Some 0) fee fee_mul admin_fee h = Some (Inr s, h') \<longrightarrow>
             pool_D s h' None = Some (Inr (pool_tokens s)))"
proof (intro conjI allI impI)
  show "Pool A D n p (Some 0) fee fee_mul admin_fee h = Pool A D n p None fee fee_mul admin_fee h"
    unfolding Pool_def tokens_or_D_zero ..
next
  fix s h'
  assume P: "Pool A D n p (Some 0) fee fee_mul admin_fee h = Some (Inr s, h')"
  define ps where "ps = p_or_default p n"
  from P obtain x h1 where x: "initial_x D n ps h = Some (Inr x, h1)"
    by (auto simp: Pool_def Let_def ps_def split: option.splits sum.splits prod.splits)
  have xlt: "x < next_ref h1" using initial_x_valid[OF assms x] .
  define s0 where "s0 = \<lparr>pool_A = A, pool_n = n, pool_fee = fee, pool_p = ps, pool_x = x,
                       pool_tokens = 0, pool_fee_mul = None, pool_admin_fee = 0,
                       pool_r = False, pool_n_total = 0, pool_admin_balances = 0\<rparr>"
  from P x obtain t where t: "pool_D s0 h1 None = Some (Inr t)"
    and s: "s = s0\<lparr>pool_tokens := t, pool_fee_mul := fee_mul,
                   pool_admin_fee := admin_fee, pool_r := False, pool_n_total := n,
                   pool_admin_balances := fst (new_list (replicate (nat n) 0) h1)\<rparr>"
    and h': "h' = snd (new_list (replicate (nat n) 0) h1)"
    by (auto simp: Pool_def Let_def ps_def[symmetric] s0_def[symmetric] tokens_or_D_def
        split: option.splits sum.splits prod.splits)
  have "pool_D s h' None = pool_D s0 h1 None"
    using xlt by (intro pool_D_cong) (auto simp: s h' s0_def new_list_def load_def)
  with t s show "pool_D s h' None = Some (Inr (pool_tokens s))" by simp
qed

lemma Pool_250_2000:
  "Pool 250 (D_int 2000) 2 None (Some 0) 4000000 None 0 empty_heap =
     Some (Inr (pool_250 2000), heap_250 1000 1000)"
  by (simp add: Pool_defs comp_defs heap_defs solver_defs pool_250_def heap_250_def Let_def
      replicate_numeral)

text \<open>The theorem at \<^verbatim>\<open>Pool(A=250, D=2000, n=2, tokens=0)\<close>: \<^verbatim>\<open>tokens\<close> is 2000.\<close>

theorem Pool_tokens_zero_is_D_witness:
  "valid_D (D_int 2000) empty_heap \<and>
   Pool 250 (D_int 2000) 2 None None 4000000 None 0 empty_heap =
     Some (Inr (pool_250 2000), heap_250 1000 1000) \<and>
   pool_D (pool_250 2000) (heap_250 1000 1000) None = Some (Inr 2000)"
proof -
  have v: "valid_D (D_int 2000) empty_heap" by (simp add: valid_D_def)
  from Pool_tokens_zero_is_D[OF v, of 250 2 None 4000000 None 0] show ?thesis
    using v by (simp add: Pool_250_2000 pool_250_def)
qed

text \<open>
  C10 as stated fails in its last part: \<^verbatim>\<open>Pool(A=250, D=0, n=2, tokens=0)\<close> has the
  balances \<^verbatim>\<open>[0, 0]\<close>, for which \<^verbatim>\<open>D()\<close> is 0, and its \<^verbatim>\<open>tokens\<close> is 0.
\<close>

theorem Pool_with_zero_tokens:
  "\<exists>s h. Pool 250 (D_int 0) 2 None (Some 0) 4000000 None 0 empty_heap = Some (Inr s, h)
         \<and> pool_tokens s = 0"
proof -
  have "Pool 250 (D_int 0) 2 None (Some 0) 4000000 None 0 empty_heap =
          Some (Inr (pool_250 0), heap_250 0 0)"
    by (simp add: Pool_defs comp_defs heap_defs solver_defs pool_250_def heap_250_def Let_def
        replicate_numeral)
  then show ?thesis by (simp add: pool_250_def)
qed

section \<open>The exchange scenario\<close>

lemma Pool_250_1e24:
  "Pool 250 (D_int (10 ^ 24)) 2 None None 4000000 None 0 empty_heap =
     Some (Inr (pool_250 (10 ^ 24)), heap_250 (5 * 10 ^ 23) (5 * 10 ^ 23))"
  by (simp add: Pool_defs comp_defs heap_defs solver_defs pool_250_def heap_250_def Let_def
      replicate_numeral)

lemma exchange_250_1e24:
  "exchange 0 1 (150 * 10 ^ 6) (pool_250 (10 ^ 24), heap_250 (5 * 10 ^ 23) (5 * 10 ^ 23)) =
     Some (Inr (149940000, 59999), pool_250 (10 ^ 24),
           heap_250 (5 * 10 ^ 23 + 150 * 10 ^ 6) (5 * 10 ^ 23 - 149940000))"
  by (simp add: exchange_def comp_defs heap_defs prog_defs solver_defs pool_250_def
      heap_250_def Let_def)

text \<open>
  C3. What the code does at the example of the docstring of \<^verbatim>\<open>exchange\<close>, which gives
  150000000 for the call.  On \<^verbatim>\<open>Pool(A=250, D=10**24, n=2)\<close> with the default fees,
  \<^verbatim>\<open>exchange(0, 1, 150 * 10**6)\<close> returns \<^verbatim>\<open>(dy, fee) = (149_940_000, 59_999)\<close>:
  the fee of 4 parts in 10000 is taken from the 149_999_999 that the invariant gives.
  Afterwards \<^verbatim>\<open>x[0]\<close> has increased by \<^verbatim>\<open>150 * 10**6\<close>, \<^verbatim>\<open>x[1]\<close> has decreased by
  149_940_000, and the admin balances are unchanged.
\<close>

theorem exchange_scenario:
  "\<exists>s h h'. Pool 250 (D_int (10 ^ 24)) 2 None None 4000000 None 0 empty_heap = Some (Inr s, h)
     \<and> exchange 0 1 (150 * 10 ^ 6) (s, h) = Some (Inr (149940000, 59999), s, h')
     \<and> load h' (pool_x s) ! 0 = load h (pool_x s) ! 0 + 150 * 10 ^ 6
     \<and> load h' (pool_x s) ! 1 = load h (pool_x s) ! 1 - 149940000
     \<and> load h' (pool_admin_balances s) = load h (pool_admin_balances s)"
  by (intro exI conjI, rule Pool_250_1e24, rule exchange_250_1e24)
     (simp_all add: pool_250_def heap_250_def load_def)

text \<open>
  The call does not return \<^verbatim>\<open>dy = 150_000_000\<close>, the value of C3 and of the docstring.
\<close>

theorem exchange_scenario_not_150000000:
  "\<not> (\<exists>s h fee st'. Pool 250 (D_int (10 ^ 24)) 2 None None 4000000 None 0 empty_heap =
         Some (Inr s, h)
       \<and> exchange 0 1 (150 * 10 ^ 6) (s, h) = Some (Inr (150000000, fee), st'))"
proof
  assume "\<exists>s h fee st'. Pool 250 (D_int (10 ^ 24)) 2 None None 4000000 None 0 empty_heap =
         Some (Inr s, h)
       \<and> exchange 0 1 (150 * 10 ^ 6) (s, h) = Some (Inr (150000000, fee), st')"
  then obtain s h fee st' where
    P: "Pool 250 (D_int (10 ^ 24)) 2 None None 4000000 None 0 empty_heap = Some (Inr s, h)"
    and E: "exchange 0 1 (150 * 10 ^ 6) (s, h) = Some (Inr (150000000, fee), st')"
    by blast
  from P have "s = pool_250 (10 ^ 24)" "h = heap_250 (5 * 10 ^ 23) (5 * 10 ^ 23)"
    unfolding Pool_250_1e24 by simp_all
  with E exchange_250_1e24 show False by simp
qed

section \<open>What the operations may touch\<close>

text \<open>
  The rules follow the structure of a method body: a step that only reads keeps every list, a
  new list is at a fresh address, and a write to a fresh address keeps every list that was there
  before.
\<close>

lemma frame_refl: "N \<le> next_ref (snd st) \<Longrightarrow> frame N st st"
  by (simp add: frame_def)

lemma frame_trans: "frame N st st1 \<Longrightarrow> frame N st1 st2 \<Longrightarrow> frame N st st2"
  by (simp add: frame_def)

lemma keeps_sret: "keeps N (sret v)"
  and keeps_lift: "keeps N (lift c)"
  and keeps_self: "keeps N self"
  and keeps_the_heap: "keeps N the_heap"
  and keeps_read: "keeps N (read a)"
  and keeps_get_item: "keeps N (get_item a i)"
  by (auto simp: keeps_def frame_def sret_def lift_def self_def the_heap_def read_def get_item_def
      split: option.splits)

lemma keeps_alloc: "keeps N (alloc v)"
  by (auto simp: keeps_def frame_def alloc_def new_list_def)

lemma fresh_alloc: "fresh N (alloc v)"
  by (auto simp: fresh_def alloc_def new_list_def)

lemma keeps_set_item: "N \<le> a \<Longrightarrow> keeps N (set_item a i v)"
  by (auto simp: keeps_def frame_def set_item_def store_def split: option.splits)

lemma keepsD:
  "keeps N m \<Longrightarrow> N \<le> next_ref (snd st) \<Longrightarrow> m st = Some (r, st') \<Longrightarrow> frame N st st'"
  unfolding keeps_def by blast

lemma freshD:
  "fresh N m \<Longrightarrow> N \<le> next_ref (snd st) \<Longrightarrow> m st = Some (Inr a, st') \<Longrightarrow> N \<le> a"
  unfolding fresh_def by blast

lemma keeps_sbind_gen:
  assumes m: "keeps N m"
    and f: "\<And>v st st1. N \<le> next_ref (snd st) \<Longrightarrow> m st = Some (Inr v, st1) \<Longrightarrow> keeps N (f v)"
  shows "keeps N (sbind m f)"
  unfolding keeps_def
proof (intro allI impI)
  fix st r st'
  assume N: "N \<le> next_ref (snd st)" and b: "sbind m f st = Some (r, st')"
  show "frame N st st'"
  proof (cases "m st")
    case None
    with b show ?thesis by (simp add: sbind_def)
  next
    case (Some a)
    obtain r1 st1 where a: "a = (r1, st1)" by (cases a)
    with Some have ms: "m st = Some (r1, st1)" by simp
    have f1: "frame N st st1" using keepsD[OF m N ms] .
    then have N1: "N \<le> next_ref (snd st1)" by (simp add: frame_def)
    show ?thesis
    proof (cases r1)
      case (Inl e)
      with ms b f1 show ?thesis by (simp add: sbind_def)
    next
      case (Inr v)
      with ms b have fv: "f v st1 = Some (r, st')" by (simp add: sbind_def)
      from ms Inr have "keeps N (f v)" using f[OF N] by simp
      from keepsD[OF this N1 fv] f1 show ?thesis by (rule frame_trans[rotated])
    qed
  qed
qed

lemma keeps_sbind: "keeps N m \<Longrightarrow> (\<And>v. keeps N (f v)) \<Longrightarrow> keeps N (sbind m f)"
  by (rule keeps_sbind_gen)

lemma keeps_sbind_fresh:
  "keeps N m \<Longrightarrow> fresh N m \<Longrightarrow> (\<And>a. N \<le> a \<Longrightarrow> keeps N (f a)) \<Longrightarrow> keeps N (sbind m f)"
  by (rule keeps_sbind_gen) (auto dest: freshD)

lemma fresh_sbind_alloc:
  assumes "keeps N m"
  shows "fresh N (sbind m alloc)"
  unfolding fresh_def
proof (intro allI impI)
  fix st a st'
  assume N: "N \<le> next_ref (snd st)" and b: "sbind m alloc st = Some (Inr a, st')"
  then obtain v st1 where ms: "m st = Some (Inr v, st1)" and al: "alloc v st1 = Some (Inr a, st')"
    by (auto simp: sbind_def split: option.splits sum.splits prod.splits)
  from keepsD[OF assms N ms] have "N \<le> next_ref (snd st1)" by (simp add: frame_def)
  with al show "N \<le> a" by (auto simp: alloc_def new_list_def)
qed

lemma keeps_for_each: "(\<And>k. keeps N (body k)) \<Longrightarrow> keeps N (for_each ks body)"
  by (induction ks) (auto intro: keeps_sret keeps_sbind)

lemma keeps_if: "(c \<Longrightarrow> keeps N a) \<Longrightarrow> (\<not> c \<Longrightarrow> keeps N b) \<Longrightarrow> keeps N (if c then a else b)"
  by simp

lemmas keeps_simple = keeps_sret keeps_lift keeps_self keeps_the_heap keeps_read keeps_get_item
  keeps_alloc

lemma keeps_calc_token_amount: "keeps N (calc_token_amount amounts use_fee)"
  unfolding calc_token_amount_def Let_def
  apply (intro keeps_sbind_fresh[where m = "alloc _"] keeps_sbind_fresh[where m = "sbind _ alloc"]
        fresh_alloc fresh_sbind_alloc keeps_for_each keeps_if keeps_set_item
        keeps_sbind keeps_simple)
    apply assumption+
  done

lemma keeps_calc_withdraw_one_coin: "keeps N (calc_withdraw_one_coin token_amount i use_fee)"
  unfolding calc_withdraw_one_coin_def Let_def
  apply (intro keeps_sbind_fresh[where m = "alloc _"] keeps_sbind_fresh[where m = "sbind _ alloc"]
        fresh_alloc fresh_sbind_alloc keeps_for_each keeps_if keeps_set_item
        keeps_sbind keeps_simple)
    apply assumption+
  done

section \<open>The queries \<^verbatim>\<open>calc_token_amount\<close> and \<^verbatim>\<open>calc_withdraw_one_coin\<close>\<close>

text \<open>
  C9.  The two queries leave the pool state unchanged.  For every pool whose lists
  \<^verbatim>\<open>x\<close> and \<^verbatim>\<open>admin_balances\<close> are on the heap and for all arguments, whenever
  \<^verbatim>\<open>calc_token_amount(amounts, use_fee)\<close> or \<^verbatim>\<open>calc_withdraw_one_coin(token_amount, i, use_fee)\<close>
  ends, by returning or by raising, the pool object is the one before the call (so \<^verbatim>\<open>tokens\<close>
  and every other field, and the lists \<^verbatim>\<open>x\<close> and \<^verbatim>\<open>admin_balances\<close> refer to), and the
  contents of \<^verbatim>\<open>x\<close> and of \<^verbatim>\<open>admin_balances\<close> are the ones before the call: the queries write
  only to lists they made themselves.
\<close>

theorem calc_queries_leave_pool_unchanged:
  assumes "pool_x s < next_ref h" and "pool_admin_balances s < next_ref h"
  shows "(\<forall>r s' h'. calc_token_amount amounts use_fee (s, h) = Some (r, s', h') \<longrightarrow>
            s' = s \<and> load h' (pool_x s) = load h (pool_x s) \<and>
            load h' (pool_admin_balances s) = load h (pool_admin_balances s))
       \<and> (\<forall>r s' h'. calc_withdraw_one_coin token_amount i use_fee (s, h) = Some (r, s', h') \<longrightarrow>
            s' = s \<and> load h' (pool_x s) = load h (pool_x s) \<and>
            load h' (pool_admin_balances s) = load h (pool_admin_balances s))"
proof (intro conjI allI impI)
  fix r s' h'
  assume "calc_token_amount amounts use_fee (s, h) = Some (r, s', h')"
  from keepsD[OF keeps_calc_token_amount _ this, of "next_ref h"]
  have "frame (next_ref h) (s, h) (s', h')" by simp
  with assms show "s' = s" "load h' (pool_x s) = load h (pool_x s)"
    "load h' (pool_admin_balances s) = load h (pool_admin_balances s)"
    by (simp_all add: frame_def load_def)
next
  fix r s' h'
  assume "calc_withdraw_one_coin token_amount i use_fee (s, h) = Some (r, s', h')"
  from keepsD[OF keeps_calc_withdraw_one_coin _ this, of "next_ref h"]
  have "frame (next_ref h) (s, h) (s', h')" by simp
  with assms show "s' = s" "load h' (pool_x s) = load h (pool_x s)"
    "load h' (pool_admin_balances s) = load h (pool_admin_balances s)"
    by (simp_all add: frame_def load_def)
qed

lemma calc_token_amount_2000:
  "calc_token_amount [10, 10] False (pool_250 2000, heap_250 1000 1000) =
     Some (Inr (20, None), pool_250 2000,
           \<lparr>cells = (\<lambda>_. [])(0 := [1000, 1000], 1 := [0, 0], 2 := [1010, 1010], 3 := [1010, 1010]),
            next_ref = 4\<rparr>)"
  by (simp add: calc_token_amount_def comp_defs heap_defs prog_defs solver_defs pool_250_def
      heap_250_def Let_def replicate_numeral)

lemma calc_withdraw_one_coin_2000:
  "calc_withdraw_one_coin 100 0 True (pool_250 2000, heap_250 1000 1000) =
     Some (Inr (99, Some 1), pool_250 2000,
           \<lparr>cells = (\<lambda>_. [])(0 := [1000, 1000], 1 := [0, 0], 2 := [1000, 1000]),
            next_ref = 3\<rparr>)"
  by (simp add: calc_withdraw_one_coin_def comp_defs heap_defs prog_defs solver_defs pool_250_def
      heap_250_def Let_def replicate_numeral)

text \<open>
  The theorem at the pool of balances \<^verbatim>\<open>[1000, 1000]\<close> and 2000 tokens:
  \<^verbatim>\<open>calc_token_amount([10, 10])\<close> returns 20, \<^verbatim>\<open>calc_withdraw_one_coin(100, 0)\<close> returns
  \<^verbatim>\<open>(99, 1)\<close>, and the pool is as before.
\<close>

theorem calc_queries_leave_pool_unchanged_witness:
  "pool_x (pool_250 2000) < next_ref (heap_250 1000 1000)
   \<and> pool_admin_balances (pool_250 2000) < next_ref (heap_250 1000 1000)
   \<and> (\<exists>s' h'. calc_token_amount [10, 10] False (pool_250 2000, heap_250 1000 1000)
                 = Some (Inr (20, None), s', h')
          \<and> s' = pool_250 2000 \<and> load h' (pool_x s') = [1000, 1000]
          \<and> load h' (pool_admin_balances s') = [0, 0])
   \<and> (\<exists>s' h'. calc_withdraw_one_coin 100 0 True (pool_250 2000, heap_250 1000 1000)
                 = Some (Inr (99, Some 1), s', h')
          \<and> s' = pool_250 2000 \<and> load h' (pool_x s') = [1000, 1000]
          \<and> load h' (pool_admin_balances s') = [0, 0])"
proof -
  have a: "pool_x (pool_250 2000) < next_ref (heap_250 1000 1000)"
    and b: "pool_admin_balances (pool_250 2000) < next_ref (heap_250 1000 1000)"
    by (simp_all add: pool_250_def heap_250_def)
  have x: "load (heap_250 1000 1000) (pool_x (pool_250 2000)) = [1000, 1000]"
    and y: "load (heap_250 1000 1000) (pool_admin_balances (pool_250 2000)) = [0, 0]"
    by (simp_all add: pool_250_def heap_250_def load_def)
  note U = calc_queries_leave_pool_unchanged [OF a b]
  from U [where use_fee = False] calc_token_amount_2000 x y
  have 1: "\<exists>s' h'. calc_token_amount [10, 10] False (pool_250 2000, heap_250 1000 1000)
                 = Some (Inr (20, None), s', h')
          \<and> s' = pool_250 2000 \<and> load h' (pool_x s') = [1000, 1000]
          \<and> load h' (pool_admin_balances s') = [0, 0]"
    by metis
  from U [where use_fee = True] calc_withdraw_one_coin_2000 x y
  have 2: "\<exists>s' h'. calc_withdraw_one_coin 100 0 True (pool_250 2000, heap_250 1000 1000)
                 = Some (Inr (99, Some 1), s', h')
          \<and> s' = pool_250 2000 \<and> load h' (pool_x s') = [1000, 1000]
          \<and> load h' (pool_admin_balances s') = [0, 0]"
    by metis
  from a b 1 2 show ?thesis by blast
qed

section \<open>Running an operation that returns\<close>

text \<open>
  When an operation returns, each of its steps returned, and the state went from step to step.
\<close>

lemma sbind_Inr_iff:
  "(sbind m f st = Some (Inr v, st')) =
     (\<exists>u st1. m st = Some (Inr u, st1) \<and> f u st1 = Some (Inr v, st'))"
  by (auto simp: sbind_def split: option.splits sum.splits prod.splits)

lemma lift_Inr_iff: "(lift c st = Some (Inr u, st1)) = (c = Some (Inr u) \<and> st1 = st)"
  by (auto simp: lift_def split: option.splits)

lemma get_item_Inr_iff:
  "(get_item a i st = Some (Inr u, st1)) = (py_get (load (snd st) a) i = Some (Inr u) \<and> st1 = st)"
  by (auto simp: get_item_def split: option.splits)

lemma set_item_Inr_iff:
  "(set_item a i v st = Some (Inr u, st1)) =
     (\<exists>k. py_index (load (snd st) a) i = Some k \<and>
          st1 = (fst st, store (snd st) a ((load (snd st) a)[k := v])))"
  by (auto simp: set_item_def split: option.splits)

lemma py_get_Inr_iff: "(py_get xs i = Some (Inr v)) = (\<exists>k. py_index xs i = Some k \<and> v = xs ! k)"
  by (auto simp: py_get_def raise_def ret_def split: option.splits)

lemma floordiv_Inr_iff: "(floordiv a b = Some (Inr q)) = (b \<noteq> 0 \<and> q = a div b)"
  by (auto simp: floordiv_def raise_def ret_def)

lemma py_index_nonneg: "0 \<le> j \<Longrightarrow> (py_index xs j = Some k) = (k = nat j \<and> nat j < length xs)"
  by (auto simp: py_index_def Let_def)

lemma self_Inr_iff: "(self st = Some (Inr u, st1)) = (u = fst st \<and> st1 = st)"
  and the_heap_Inr_iff: "(the_heap st = Some (Inr hh, st1)) = (hh = snd st \<and> st1 = st)"
  and read_Inr_iff: "(read a st = Some (Inr xs, st1)) = (xs = load (snd st) a \<and> st1 = st)"
  and alloc_Inr_iff: "(alloc v st = Some (Inr a, st1)) =
         (a = next_ref (snd st) \<and> st1 = (fst st, snd (new_list v (snd st))))"
  and sret_Inr_iff: "(sret w st = Some (Inr w', st1)) = (w' = w \<and> st1 = st)"
  by (auto simp: self_def the_heap_def read_def alloc_def sret_def new_list_def)

lemmas run_iffs = sbind_Inr_iff lift_Inr_iff get_item_Inr_iff self_Inr_iff the_heap_Inr_iff
  read_Inr_iff alloc_Inr_iff sret_Inr_iff

section \<open>What \<^verbatim>\<open>exchange\<close> raises\<close>

text \<open>
  The errors of the parts of \<^verbatim>\<open>exchange\<close>: a zero divisor, or an index out of range.
\<close>

lemma get_D_error: "get_D s xp A_arg = Some (Inl e) \<Longrightarrow> e = ZeroDivisionError"
  by (auto simp: get_D_def get_D_iters_def Let_def dest!: get_D_while_exit)

lemma pool_D_error: "pool_D s h xp_arg = Some (Inl e) \<Longrightarrow> e = ZeroDivisionError"
  by (auto simp: pool_D_def Let_def dest: get_D_error)

lemma get_y_while_error: "get_y_while c b y yp = Some r \<Longrightarrow> r = Inl e \<Longrightarrow> e = ZeroDivisionError"
proof (rule get_y_while.raw_induct[where
      P = "\<lambda>c b y yp r. \<forall>e. r = Inl e \<longrightarrow> e = ZeroDivisionError", rule_format], goal_cases)
  case (1 W c b y yp r e)
  then show ?case by (auto split: if_splits)
qed

lemma others_error: "others xx j ks = Some (Inl e) \<Longrightarrow> e = IndexError"
  by (induction ks)
    (auto simp: bnd_def ret_def raise_def py_get_def split: if_splits option.splits sum.splits)

lemma c_loop_error: "c_loop n D ys c = Inl e \<Longrightarrow> e = ZeroDivisionError"
  by (induction ys arbitrary: c) (auto split: if_splits)

lemma bnd_Inl:
  "bnd m f = Some (Inl e) \<Longrightarrow> m = Some (Inl e) \<or> (\<exists>v. m = Some (Inr v) \<and> f v = Some (Inl e))"
  by (auto simp: bnd_def split: option.splits sum.splits)

lemma floordiv_error: "floordiv a b = Some (Inl e) \<Longrightarrow> e = ZeroDivisionError"
  by (auto simp: floordiv_def raise_def ret_def split: if_splits)

lemma py_set_error: "py_set xs i v = Some (Inl e) \<Longrightarrow> e = IndexError"
  by (auto simp: py_set_def raise_def ret_def split: option.splits)

lemma py_get_error: "py_get xs i = Some (Inl e) \<Longrightarrow> e = IndexError"
  by (auto simp: py_get_def raise_def ret_def split: option.splits)

lemma get_y_error:
  "get_y s h i j x xp = Some (Inl e) \<Longrightarrow> e = IndexError \<or> e = ZeroDivisionError"
  unfolding get_y_def Let_def
  by (auto dest!: bnd_Inl dest: pool_D_error py_set_error others_error c_loop_error floordiv_error
      get_y_while_error)

lemma dynamic_fee_error: "dynamic_fee s fee_mul xpi xpj = Some (Inl e) \<Longrightarrow> e = ZeroDivisionError"
  unfolding dynamic_fee_def Let_def
  by (auto dest!: bnd_Inl dest: floordiv_error)


lemma out_self: "outcome Q (f (fst st)) st \<Longrightarrow> outcome Q (sbind self f) st"
  and out_heap: "outcome Q (g (snd st)) st \<Longrightarrow> outcome Q (sbind the_heap g) st"
  and out_sret: "outcome Q (k v) st \<Longrightarrow> outcome Q (sbind (sret v) k) st"
  by (simp_all add: outcome_def sbind_def self_def the_heap_def sret_def)

lemma out_lift:
  "(\<And>e. c = Some (Inl e) \<Longrightarrow> Q (Inl e) st) \<Longrightarrow>
   (\<And>v. c = Some (Inr v) \<Longrightarrow> outcome Q (f v) st) \<Longrightarrow> outcome Q (sbind (lift c) f) st"
  by (auto simp: outcome_def sbind_def lift_def split: option.splits sum.splits)

lemma out_lift_sret:
  "(\<And>e. c = Some (Inl e) \<Longrightarrow> Q (Inl e) st) \<Longrightarrow>
   (\<And>v. c = Some (Inr v) \<Longrightarrow> outcome Q (k (g v)) st) \<Longrightarrow>
   outcome Q (sbind (sbind (lift c) (\<lambda>v. sret (g v))) k) st"
  by (auto simp: outcome_def sbind_def lift_def sret_def split: option.splits sum.splits)

lemma out_case:
  "(fm = None \<Longrightarrow> outcome Q (sbind a k) st) \<Longrightarrow>
   (\<And>v. fm = Some v \<Longrightarrow> outcome Q (sbind (b v) k) st) \<Longrightarrow>
   outcome Q (sbind (case fm of None \<Rightarrow> a | Some v \<Rightarrow> b v) k) st"
  by (cases fm) simp_all

lemma py_index_length: "length xs = length ys \<Longrightarrow> py_index xs i = py_index ys i"
  by (simp add: py_index_def)

lemma py_index_longer:
  "py_index xs i = Some k \<Longrightarrow> length xs \<le> length ys \<Longrightarrow> \<exists>k'. py_index ys i = Some k'"
  by (auto simp: py_index_def Let_def split: if_splits)

lemma py_get_index: "py_get xs i = Some (Inr v) \<Longrightarrow> \<exists>k. py_index xs i = Some k"
  by (auto simp: py_get_def raise_def split: option.splits)

lemma out_writes:
  assumes i: "py_index (load h a) i = Some ki" and j: "py_index (load h a) j = Some kj"
    and b: "py_index (load h b) j = Some kb"
    and Q: "\<And>st'. Q (Inr r) st'"
  shows "outcome Q
     (sbind (get_item a i) (\<lambda>v.
      sbind (set_item a i (f1 v)) (\<lambda>_.
      sbind (get_item a j) (\<lambda>v.
      sbind (set_item a j (f2 v)) (\<lambda>_.
      sbind (get_item b j) (\<lambda>v.
      sbind (set_item b j (f3 v)) (\<lambda>_.
      sret r))))))) (s, h)"
proof -
  have len: "\<And>xs k v. py_index (xs[k := v]) = py_index (xs :: int list)"
    by (rule ext) (simp add: py_index_def)
  from i j b show ?thesis
    by (auto simp: outcome_def sbind_def get_item_def set_item_def sret_def py_get_def ret_def
        load_def store_def len Q split: option.splits)
qed

lemma length_xp_of: "length (xp_of xs ps) \<le> length xs"
  by (simp add: xp_of_def)

lemma out_exchange_writes:
  assumes i: "py_get (pool_xp s h) i = Some (Inr vi)"
    and j: "py_get (pool_xp s h) j = Some (Inr vj)"
    and wf: "length (pool_xp s h) \<le> length (load h (pool_admin_balances s))"
    and Q: "\<And>st'. Q (Inr r) st'"
  shows "outcome Q
     (sbind (get_item (pool_x s) i) (\<lambda>v.
      sbind (set_item (pool_x s) i (f1 v)) (\<lambda>_.
      sbind (get_item (pool_x s) j) (\<lambda>v.
      sbind (set_item (pool_x s) j (f2 v)) (\<lambda>_.
      sbind (get_item (pool_admin_balances s) j) (\<lambda>v.
      sbind (set_item (pool_admin_balances s) j (f3 v)) (\<lambda>_.
      sret r))))))) (s, h)"
proof -
  have len: "length (pool_xp s h) \<le> length (load h (pool_x s))"
    by (simp add: pool_xp_def length_xp_of)
  from py_get_index[OF i] obtain k where k: "py_index (pool_xp s h) i = Some k" ..
  from py_get_index[OF j] obtain l where l: "py_index (pool_xp s h) j = Some l" ..
  from py_index_longer[OF k len] obtain ki where ki: "py_index (load h (pool_x s)) i = Some ki" ..
  from py_index_longer[OF l len] obtain kj where kj: "py_index (load h (pool_x s)) j = Some kj" ..
  from py_index_longer[OF l wf] obtain kb
    where kb: "py_index (load h (pool_admin_balances s)) j = Some kb" ..
  from ki kj kb Q show ?thesis by (rule out_writes)
qed

lemma exchange_outcome:
  assumes wf: "length (pool_xp s h) \<le> length (load h (pool_admin_balances s))"
  shows "outcome (\<lambda>r st'. case r of
            Inl e \<Rightarrow> st' = (s, h) \<and> (e = IndexError \<or> e = ZeroDivisionError \<or> e = AssertionError)
          | Inr v \<Rightarrow> True) (exchange i j dx) (s, h)"
  unfolding exchange_def Let_def
  apply (intro out_self out_heap out_lift out_sret out_case out_lift_sret)
                      apply (simp_all only: fst_conv snd_conv)
                      apply (auto simp: raise_def ret_def wf split: if_splits
      dest: py_get_error get_y_error dynamic_fee_error floordiv_error
      intro!: out_exchange_writes)
  done

lemma py_get_None: "py_index xs i = None \<Longrightarrow> py_get xs i = Some (Inl IndexError)"
  by (simp add: py_get_def raise_def)

lemma outcomeD: "outcome Q m st \<Longrightarrow> m st = Some (r, st') \<Longrightarrow> Q r st'"
  unfolding outcome_def by blast

lemma exchange_outcome_j:
  assumes j: "py_index (pool_xp s h) j = None"
  shows "outcome (\<lambda>r st'. st' = (s, h) \<and> (r = Inl IndexError \<or> r = Inl ZeroDivisionError))
           (exchange i j dx) (s, h)"
  unfolding exchange_def Let_def
  apply (intro out_self out_heap out_lift)
        apply (simp_all only: fst_conv snd_conv)
        apply (auto simp: py_get_None[OF j] dest: py_get_error get_y_error)
  done

text \<open>
  A call that returns has made the three updates, and nothing else.
\<close>

lemma py_index_update: "py_index (xs[k := v]) i = py_index xs i"
  by (simp add: py_index_def)

lemma py_index_None_iff:
  "(py_index xs i = None) = (i < - int (length xs) \<or> int (length xs) \<le> i)"
  by (auto simp: py_index_def Let_def)

lemma sbind_lift_Inr_iff:
  "(sbind (lift c) f st = Some (Inr v, st')) = (\<exists>u. c = Some (Inr u) \<and> f u st = Some (Inr v, st'))"
  by (auto simp: sbind_def lift_def split: option.splits sum.splits)

lemma sbind_lift_sret_Inr_iff:
  "(sbind (sbind (lift c) (\<lambda>u. sret (g u))) k st = Some (Inr v, st')) =
     (\<exists>u. c = Some (Inr u) \<and> k (g u) st = Some (Inr v, st'))"
  by (auto simp: sbind_def lift_def sret_def split: option.splits sum.splits)

lemma sbind_self_eq: "sbind self f st = f (fst st) st"
  and sbind_the_heap_eq: "sbind the_heap g st = g (snd st) st"
  and sbind_sret_eq: "sbind (sret v) k st = k v st"
  by (simp_all add: sbind_def self_def the_heap_def sret_def)

lemma exchange_Inr_writes:
  assumes "exchange i j dx (s, h) = Some (Inr r, st')"
  obtains admin_fee dy fee where "0 \<le> dy" and
    "(sbind (get_item (pool_x s) i) (\<lambda>v.
      sbind (set_item (pool_x s) i (v + dx)) (\<lambda>_.
      sbind (get_item (pool_x s) j) (\<lambda>v.
      sbind (set_item (pool_x s) j (v - (dy + admin_fee))) (\<lambda>_.
      sbind (get_item (pool_admin_balances s) j) (\<lambda>v.
      sbind (set_item (pool_admin_balances s) j (v + admin_fee)) (\<lambda>_.
      sret (dy, fee))))))))
     (s, h) = Some (Inr r, st')"
  using assms unfolding exchange_def Let_def
  by (auto simp: sbind_lift_Inr_iff sbind_lift_sret_Inr_iff sbind_self_eq sbind_the_heap_eq
      sbind_sret_eq raise_def ret_def split: option.splits if_splits intro: that)

lemma writes_run:
  assumes "(sbind (get_item a i) (\<lambda>v.
      sbind (set_item a i (v + dx)) (\<lambda>_.
      sbind (get_item a j) (\<lambda>v.
      sbind (set_item a j (v - w)) (\<lambda>_.
      sbind (get_item b j) (\<lambda>v.
      sbind (set_item b j (v + u)) (\<lambda>_.
      sret r)))))))
     (s, h) = Some (Inr r', st')"
    and "a \<noteq> b"
  shows "r' = r \<and> (\<exists>ki kj kb.
        py_index (load h a) i = Some ki \<and> py_index (load h a) j = Some kj \<and>
        py_index (load h b) j = Some kb \<and>
        st' = (s, store (store h a
                 (((load h a)[ki := load h a ! ki + dx])
                    [kj := ((load h a)[ki := load h a ! ki + dx]) ! kj - w]))
               b ((load h b)[kb := load h b ! kb + u])))"
  using assms
  by (auto simp: run_iffs set_item_Inr_iff py_get_Inr_iff py_index_update load_def store_def)

lemma exchange_returns:
  assumes ex: "exchange i j dx (s, h) = Some (Inr (dy, fee), st')"
    and ne: "pool_x s \<noteq> pool_admin_balances s"
  shows "0 \<le> dy \<and>
     (\<exists>ki kj kb admin_fee.
        py_index (load h (pool_x s)) i = Some ki \<and> py_index (load h (pool_x s)) j = Some kj \<and>
        py_index (load h (pool_admin_balances s)) j = Some kb \<and>
        st' = (s, store (store h (pool_x s)
                 (((load h (pool_x s))[ki := load h (pool_x s) ! ki + dx])
                    [kj := ((load h (pool_x s))[ki := load h (pool_x s) ! ki + dx]) ! kj
                           - (dy + admin_fee)]))
               (pool_admin_balances s)
               ((load h (pool_admin_balances s))
                  [kb := load h (pool_admin_balances s) ! kb + admin_fee])))"
proof -
  from ex obtain admin_fee dy' fee' where dy: "0 \<le> dy'" and
    w: "(sbind (get_item (pool_x s) i) (\<lambda>v.
      sbind (set_item (pool_x s) i (v + dx)) (\<lambda>_.
      sbind (get_item (pool_x s) j) (\<lambda>v.
      sbind (set_item (pool_x s) j (v - (dy' + admin_fee))) (\<lambda>_.
      sbind (get_item (pool_admin_balances s) j) (\<lambda>v.
      sbind (set_item (pool_admin_balances s) j (v + admin_fee)) (\<lambda>_.
      sret (dy', fee'))))))))
     (s, h) = Some (Inr (dy, fee), st')"
    by (rule exchange_Inr_writes)
  from writes_run[OF w ne] have "dy = dy'" by simp
  with writes_run[OF w ne] dy show ?thesis by blast
qed

text \<open>
  C7, as amended.  \<^verbatim>\<open>exchange(i, j, dx)\<close> makes no check of its arguments and has no
  \<open>InvalidInputs\<close>, for any \<open>i\<close>, \<open>j\<close> and \<open>dx\<close>, also with \<open>i = j\<close>, with \<open>dx < 0\<close> and with an index
  out of range.  On a pool whose \<^verbatim>\<open>x\<close> and \<^verbatim>\<open>admin_balances\<close> are two lists, the second at least
  as long as the list \<open>xp\<close> of normalised balances, of length \<open>len\<close>:

  \<^item> whenever the call raises, the error is \<^verbatim>\<open>IndexError\<close>, \<^verbatim>\<open>ZeroDivisionError\<close> or
    \<^verbatim>\<open>AssertionError\<close> (the \<^verbatim>\<open>assert dy >= 0\<close>), and the state is the one before the call;
  \<^item> when \<open>i\<close> is outside \<open>[-len, len)\<close> the call raises \<^verbatim>\<open>IndexError\<close>; when \<open>j\<close> is outside
    \<open>[-len, len)\<close> the call returns no value: if it ends, it raises \<^verbatim>\<open>IndexError\<close> or
    \<^verbatim>\<open>ZeroDivisionError\<close>, the state unchanged;
  \<^item> whenever the call returns \<^verbatim>\<open>(dy, fee)\<close>, then \<open>dy \<ge> 0\<close>, \<open>i\<close> and \<open>j\<close> are indices of
    \<^verbatim>\<open>x\<close> as Python reads them (a negative one counts from the end), and the state has been
    updated: \<^verbatim>\<open>x[i] += dx\<close>, then \<^verbatim>\<open>x[j] -= dy + admin_fee\<close>, and
    \<^verbatim>\<open>admin_balances[j] += admin_fee\<close>, for some \<open>admin_fee\<close>; nothing else has changed.

  A call with \<open>i = j\<close>, with \<open>dx < 0\<close> or with a negative index is not rejected as such: it raises
  or returns as these three items say.
\<close>

theorem exchange_makes_no_check:
  assumes wf: "length (pool_xp s h) \<le> length (load h (pool_admin_balances s))"
    and ne: "pool_x s \<noteq> pool_admin_balances s"
  shows "(\<forall>e st'. exchange i j dx (s, h) = Some (Inl e, st') \<longrightarrow>
            st' = (s, h) \<and> (e = IndexError \<or> e = ZeroDivisionError \<or> e = AssertionError))
       \<and> (i < - int (length (pool_xp s h)) \<or> int (length (pool_xp s h)) \<le> i \<longrightarrow>
            exchange i j dx (s, h) = Some (Inl IndexError, (s, h)))
       \<and> (j < - int (length (pool_xp s h)) \<or> int (length (pool_xp s h)) \<le> j \<longrightarrow>
            (\<forall>r st'. exchange i j dx (s, h) = Some (r, st') \<longrightarrow>
               st' = (s, h) \<and> (r = Inl IndexError \<or> r = Inl ZeroDivisionError)))
       \<and> (\<forall>dy fee st'. exchange i j dx (s, h) = Some (Inr (dy, fee), st') \<longrightarrow>
            0 \<le> dy \<and>
            (\<exists>ki kj kb admin_fee.
               py_index (load h (pool_x s)) i = Some ki \<and>
               py_index (load h (pool_x s)) j = Some kj \<and>
               py_index (load h (pool_admin_balances s)) j = Some kb \<and>
               st' = (s, store (store h (pool_x s)
                        (((load h (pool_x s))[ki := load h (pool_x s) ! ki + dx])
                           [kj := ((load h (pool_x s))[ki := load h (pool_x s) ! ki + dx]) ! kj
                                  - (dy + admin_fee)]))
                      (pool_admin_balances s)
                      ((load h (pool_admin_balances s))
                         [kb := load h (pool_admin_balances s) ! kb + admin_fee]))))"
proof -
  have 1: "\<forall>e st'. exchange i j dx (s, h) = Some (Inl e, st') \<longrightarrow>
            st' = (s, h) \<and> (e = IndexError \<or> e = ZeroDivisionError \<or> e = AssertionError)"
  proof (intro allI impI)
    fix e st'
    assume "exchange i j dx (s, h) = Some (Inl e, st')"
    from outcomeD[OF exchange_outcome[OF wf] this]
    show "st' = (s, h) \<and> (e = IndexError \<or> e = ZeroDivisionError \<or> e = AssertionError)"
      by simp
  qed
  have 2: "i < - int (length (pool_xp s h)) \<or> int (length (pool_xp s h)) \<le> i \<longrightarrow>
            exchange i j dx (s, h) = Some (Inl IndexError, (s, h))"
    by (simp add: exchange_def sbind_def self_def the_heap_def lift_def py_get_def raise_def
        Let_def py_index_None_iff[symmetric])
  have 3: "j < - int (length (pool_xp s h)) \<or> int (length (pool_xp s h)) \<le> j \<longrightarrow>
            (\<forall>r st'. exchange i j dx (s, h) = Some (r, st') \<longrightarrow>
               st' = (s, h) \<and> (r = Inl IndexError \<or> r = Inl ZeroDivisionError))"
  proof (intro allI impI)
    fix r st'
    assume "j < - int (length (pool_xp s h)) \<or> int (length (pool_xp s h)) \<le> j"
    then have j: "py_index (pool_xp s h) j = None" by (simp add: py_index_None_iff)
    assume ex: "exchange i j dx (s, h) = Some (r, st')"
    from outcomeD[OF exchange_outcome_j[OF j] ex]
    show "st' = (s, h) \<and> (r = Inl IndexError \<or> r = Inl ZeroDivisionError)" .
  qed
  have 4: "\<forall>dy fee st'. exchange i j dx (s, h) = Some (Inr (dy, fee), st') \<longrightarrow>
            0 \<le> dy \<and>
            (\<exists>ki kj kb admin_fee.
               py_index (load h (pool_x s)) i = Some ki \<and>
               py_index (load h (pool_x s)) j = Some kj \<and>
               py_index (load h (pool_admin_balances s)) j = Some kb \<and>
               st' = (s, store (store h (pool_x s)
                        (((load h (pool_x s))[ki := load h (pool_x s) ! ki + dx])
                           [kj := ((load h (pool_x s))[ki := load h (pool_x s) ! ki + dx]) ! kj
                                  - (dy + admin_fee)]))
                      (pool_admin_balances s)
                      ((load h (pool_admin_balances s))
                         [kb := load h (pool_admin_balances s) ! kb + admin_fee])))"
    using exchange_returns[OF _ ne] by blast
  from 1 2 3 4 show ?thesis by (intro conjI)
qed

text \<open>
  Calls on two-coin pools, each evaluated: an index out of range, \<open>i = j\<close>, \<open>dx < 0\<close>, and a
  negative index.
\<close>

lemma exchange_out_of_range:
  "exchange 2 0 5 (pool_250 2000, heap_250 1000 1000)
     = Some (Inl IndexError, pool_250 2000, heap_250 1000 1000)"
  "exchange 0 2 5 (pool_250 2000, heap_250 1000 1000)
     = Some (Inl IndexError, pool_250 2000, heap_250 1000 1000)"
  by (simp_all add: exchange_def comp_defs heap_defs prog_defs solver_defs pool_250_def
      heap_250_def Let_def replicate_numeral)

lemma exchange_same_index:
  "exchange 0 0 5 (pool_250 2000, heap_250 1000 1000)
     = Some (Inr (0, -1), pool_250 2000, heap_250 1005 1000)"
  by (simp add: exchange_def comp_defs heap_defs prog_defs solver_defs pool_250_def
      heap_250_def Let_def replicate_numeral)

lemma exchange_negative_dx:
  "exchange 0 1 (-1) (pool_250 2000, heap_250 1000000 10)
     = Some (Inr (0, 0), pool_250 2000, heap_250 999999 10)"
  "exchange 0 1 (-5) (pool_250 2000, heap_250 1000 1000)
     = Some (Inl AssertionError, pool_250 2000, heap_250 1000 1000)"
  by (simp_all add: exchange_def comp_defs heap_defs prog_defs solver_defs pool_250_def
      heap_250_def Let_def replicate_numeral)

lemma exchange_negative_index:
  "exchange (-1) 0 5 (pool_250 2000, heap_250 1000 1000)
     = Some (Inr (4, 0), pool_250 2000, heap_250 996 1005)"
  by (simp add: exchange_def comp_defs heap_defs prog_defs solver_defs pool_250_def
      heap_250_def Let_def replicate_numeral)

text \<open>
  The theorem at the pool of balances \<^verbatim>\<open>[1000, 1000]\<close>: \<^verbatim>\<open>exchange(2, 0, 5)\<close> raises
  \<^verbatim>\<open>IndexError\<close> and leaves the pool as it was, and \<^verbatim>\<open>exchange(-1, 0, 5)\<close> returns \<^verbatim>\<open>(4, 0)\<close>
  with \<open>0 \<le> 4\<close>.
\<close>

theorem exchange_makes_no_check_witness:
  "length (pool_xp (pool_250 2000) (heap_250 1000 1000))
     \<le> length (load (heap_250 1000 1000) (pool_admin_balances (pool_250 2000)))
   \<and> pool_x (pool_250 2000) \<noteq> pool_admin_balances (pool_250 2000)
   \<and> int (length (pool_xp (pool_250 2000) (heap_250 1000 1000))) \<le> 2
   \<and> exchange 2 0 5 (pool_250 2000, heap_250 1000 1000)
       = Some (Inl IndexError, pool_250 2000, heap_250 1000 1000)
   \<and> exchange (-1) 0 5 (pool_250 2000, heap_250 1000 1000)
       = Some (Inr (4, 0), pool_250 2000, heap_250 996 1005)
   \<and> (0 :: int) \<le> 4"
proof -
  have wf: "length (pool_xp (pool_250 2000) (heap_250 1000 1000))
     \<le> length (load (heap_250 1000 1000) (pool_admin_balances (pool_250 2000)))"
    by (simp add: pool_xp_def xp_of_def load_def pool_250_def heap_250_def replicate_numeral)
  have ne: "pool_x (pool_250 2000) \<noteq> pool_admin_balances (pool_250 2000)"
    by (simp add: pool_250_def)
  have i: "int (length (pool_xp (pool_250 2000) (heap_250 1000 1000))) \<le> 2"
    by (simp add: pool_xp_def xp_of_def load_def pool_250_def heap_250_def replicate_numeral)
  from exchange_makes_no_check [OF wf ne, where i = 2 and j = 0 and dx = 5] i
  have a: "exchange 2 0 5 (pool_250 2000, heap_250 1000 1000)
       = Some (Inl IndexError, pool_250 2000, heap_250 1000 1000)"
    by blast
  from exchange_makes_no_check [OF wf ne, where i = "-1" and j = 0 and dx = 5]
    exchange_negative_index
  have b: "(0 :: int) \<le> 4" by blast
  from wf ne i a b exchange_negative_index show ?thesis by blast
qed

text \<open>
  C7 as stated fails.  On the pool of balances \<^verbatim>\<open>[1000, 1000]\<close>, \<^verbatim>\<open>exchange(0, 0, 5)\<close> raises
  nothing: it returns \<^verbatim>\<open>(0, -1)\<close> and leaves the balances \<^verbatim>\<open>[1005, 1000]\<close>.  On the pool of
  balances \<^verbatim>\<open>[1000000, 10]\<close>, \<^verbatim>\<open>exchange(0, 1, -1)\<close> returns \<^verbatim>\<open>(0, 0)\<close> and leaves
  \<^verbatim>\<open>[999999, 10]\<close>.  \<^verbatim>\<open>exchange(-1, 0, 5)\<close> returns \<^verbatim>\<open>(4, 0)\<close> and leaves \<^verbatim>\<open>[996, 1005]\<close>.
  \<^verbatim>\<open>exchange(0, 1, -5)\<close> raises \<^verbatim>\<open>AssertionError\<close>, and \<^verbatim>\<open>exchange(2, 0, 5)\<close> and
  \<^verbatim>\<open>exchange(0, 2, 5)\<close> raise \<^verbatim>\<open>IndexError\<close>.
\<close>

theorem exchange_same_coin:
  "exchange 0 0 5 (pool_250 2000, heap_250 1000 1000)
     = Some (Inr (0, -1), pool_250 2000, heap_250 1005 1000)
   \<and> exchange 0 1 (-1) (pool_250 2000, heap_250 1000000 10)
     = Some (Inr (0, 0), pool_250 2000, heap_250 999999 10)
   \<and> exchange (-1) 0 5 (pool_250 2000, heap_250 1000 1000)
     = Some (Inr (4, 0), pool_250 2000, heap_250 996 1005)
   \<and> exchange 0 1 (-5) (pool_250 2000, heap_250 1000 1000)
     = Some (Inl AssertionError, pool_250 2000, heap_250 1000 1000)
   \<and> exchange 2 0 5 (pool_250 2000, heap_250 1000 1000)
     = Some (Inl IndexError, pool_250 2000, heap_250 1000 1000)
   \<and> exchange 0 2 5 (pool_250 2000, heap_250 1000 1000)
     = Some (Inl IndexError, pool_250 2000, heap_250 1000 1000)"
  by (simp add: exchange_out_of_range exchange_same_index exchange_negative_dx
      exchange_negative_index)

section \<open>\<^verbatim>\<open>calc_token_amount\<close> on a pool without tokens\<close>

lemma sbind_Inr:
  "sbind m f st = Some (Inr v, st') \<Longrightarrow>
     \<exists>u st1. m st = Some (Inr u, st1) \<and> f u st1 = Some (Inr v, st')"
  by (auto simp: sbind_def split: option.splits sum.splits prod.splits)

lemma calc_token_amount_zero:
  assumes "pool_tokens s = 0"
    and "calc_token_amount amounts use_fee (s, h) = Some (Inr (mint, fees), st')"
  shows "mint = 0"
  using assms
  by (auto simp: calc_token_amount_def self_def Let_def lift_def sret_def floordiv_def ret_def
      raise_def dest!: sbind_Inr split: option.splits sum.splits if_splits)

lemma assign_simp: "assign upd st = Some (Inr (), (upd (fst st), snd st))"
  by (simp add: assign_def)

text \<open>
  What \<^verbatim>\<open>calc_token_amount\<close> raises: a zero divisor, or an index out of range.
\<close>

lemma ro_sbind:
  assumes "raises_only E m" and "\<And>v. raises_only E (f v)"
  shows "raises_only E (sbind m f)"
  unfolding raises_only_def
proof (intro allI impI)
  fix st e st'
  assume b: "sbind m f st = Some (Inl e, st')"
  show "e \<in> E"
  proof (cases "m st")
    case None
    with b show ?thesis by (simp add: sbind_def)
  next
    case (Some a)
    obtain r st1 where a: "a = (r, st1)" by (cases a)
    show ?thesis
    proof (cases r)
      case (Inl e1)
      with Some a b have "e1 = e" by (simp add: sbind_def)
      with Some a Inl assms(1) show ?thesis unfolding raises_only_def by blast
    next
      case (Inr v)
      with Some a b have "f v st1 = Some (Inl e, st')" by (simp add: sbind_def)
      with assms(2)[of v] show ?thesis unfolding raises_only_def by blast
    qed
  qed
qed

lemma ro_lift: "(\<And>e. c = Some (Inl e) \<Longrightarrow> e \<in> E) \<Longrightarrow> raises_only E (lift c)"
  by (auto simp: raises_only_def lift_def split: option.splits)

lemma ro_sret: "raises_only E (sret v)"
  and ro_self: "raises_only E self"
  and ro_the_heap: "raises_only E the_heap"
  and ro_read: "raises_only E (read a)"
  and ro_alloc: "raises_only E (alloc w)"
  by (auto simp: raises_only_def sret_def self_def the_heap_def read_def alloc_def new_list_def)

lemma ro_get_item: "IndexError \<in> E \<Longrightarrow> raises_only E (get_item a i)"
  by (auto simp: raises_only_def get_item_def split: option.splits dest: py_get_error)

lemma ro_set_item: "IndexError \<in> E \<Longrightarrow> raises_only E (set_item a i v)"
  by (auto simp: raises_only_def set_item_def split: option.splits)

lemma ro_for_each: "(\<And>k. raises_only E (body k)) \<Longrightarrow> raises_only E (for_each ks body)"
  by (induction ks) (auto intro: ro_sret ro_sbind)

lemma ro_if:
  "(c \<Longrightarrow> raises_only E a) \<Longrightarrow> (\<not> c \<Longrightarrow> raises_only E b) \<Longrightarrow> raises_only E (if c then a else b)"
  by simp

lemma get_D_mem_error: "get_D_mem s balances A_arg = Some (Inl e) \<Longrightarrow> e = ZeroDivisionError"
  by (auto simp: get_D_mem_def dest: get_D_error)

lemma raises_only_calc_token_amount:
  "raises_only {IndexError, ZeroDivisionError} (calc_token_amount amounts use_fee)"
  unfolding calc_token_amount_def Let_def
  by (intro ro_sbind ro_for_each ro_if ro_sret ro_self ro_the_heap ro_read ro_alloc ro_get_item
      ro_set_item ro_lift)
    (auto dest: get_D_mem_error py_get_error floordiv_error)

lemma calc_token_amount_D0_zero:
  assumes "get_D_mem s (load h (pool_x s)) (pool_A s) = Some (Inr 0)"
    and "calc_token_amount amounts use_fee (s, h) = Some (Inr v, st')"
  shows False
  using assms
  by (auto simp: calc_token_amount_def self_def read_def Let_def lift_def sret_def floordiv_def
      ret_def raise_def dest!: sbind_Inr split: option.splits sum.splits if_splits)

text \<open>
  C6, as amended.  The code has no branch for a pool without tokens.  For every pool with
  \<^verbatim>\<open>tokens = 0\<close>, every amounts vector and both values of \<^verbatim>\<open>use_fee\<close>: a call of
  \<^verbatim>\<open>calc_token_amount\<close> that returns returns the mint amount 0
  (\<^verbatim>\<open>tokens * (D2 - D0) // D0\<close> with \<^verbatim>\<open>tokens = 0\<close>); when the invariant \<^verbatim>\<open>D0\<close> of the pool's
  balances is 0, the call returns no value: if it ends, it raises \<^verbatim>\<open>IndexError\<close> or
  \<^verbatim>\<open>ZeroDivisionError\<close>; and an \<^verbatim>\<open>add_liquidity\<close> that returns returns 0 and leaves \<^verbatim>\<open>tokens\<close>
  at 0.  The supply does not start from the invariant of the balances after the deposit.
\<close>

theorem calc_token_amount_on_zero_tokens:
  assumes "pool_tokens s = 0"
  shows "(\<forall>mint fees st'. calc_token_amount amounts use_fee (s, h) = Some (Inr (mint, fees), st')
            \<longrightarrow> mint = 0)
       \<and> (get_D_mem s (load h (pool_x s)) (pool_A s) = Some (Inr 0) \<longrightarrow>
            (\<forall>r st'. calc_token_amount amounts use_fee (s, h) = Some (r, st')
               \<longrightarrow> r = Inl IndexError \<or> r = Inl ZeroDivisionError))
       \<and> (\<forall>mint s' h'. add_liquidity amounts (s, h) = Some (Inr mint, s', h')
            \<longrightarrow> mint = 0 \<and> pool_tokens s' = 0)"
proof -
  have 1: "\<forall>mint fees st'. calc_token_amount amounts use_fee (s, h) = Some (Inr (mint, fees), st')
            \<longrightarrow> mint = 0"
    using calc_token_amount_zero[OF assms] by blast
  have 2: "get_D_mem s (load h (pool_x s)) (pool_A s) = Some (Inr 0) \<longrightarrow>
            (\<forall>r st'. calc_token_amount amounts use_fee (s, h) = Some (r, st')
               \<longrightarrow> r = Inl IndexError \<or> r = Inl ZeroDivisionError)"
  proof (intro allI impI)
    fix r st'
    assume D0: "get_D_mem s (load h (pool_x s)) (pool_A s) = Some (Inr 0)"
      and c: "calc_token_amount amounts use_fee (s, h) = Some (r, st')"
    show "r = Inl IndexError \<or> r = Inl ZeroDivisionError"
    proof (cases r)
      case (Inl e)
      with c raises_only_calc_token_amount[of amounts use_fee]
      have "e \<in> {IndexError, ZeroDivisionError}" unfolding raises_only_def by blast
      with Inl show ?thesis by auto
    next
      case (Inr v)
      with c calc_token_amount_D0_zero[OF D0] show ?thesis by blast
    qed
  qed
  have 3: "\<forall>mint s' h'. add_liquidity amounts (s, h) = Some (Inr mint, s', h')
            \<longrightarrow> mint = 0 \<and> pool_tokens s' = 0"
  proof (intro allI impI)
    fix mint s' h'
    assume a: "add_liquidity amounts (s, h) = Some (Inr mint, s', h')"
    then obtain m fees st1
      where c: "calc_token_amount amounts True (s, h) = Some (Inr (m, fees), st1)"
      by (auto simp: add_liquidity_def dest!: sbind_Inr)
    from calc_token_amount_zero[OF assms c] have m: "m = 0" .
    from keepsD[OF keeps_calc_token_amount _ c, of 0] have s1: "fst st1 = s"
      by (simp add: frame_def)
    from a c m s1 assms show "mint = 0 \<and> pool_tokens s' = 0"
      by (auto simp: add_liquidity_def sbind_def assign_def self_def read_def alloc_def sret_def
          Let_def new_list_def split: prod.splits)
  qed
  from 1 2 3 show ?thesis by (intro conjI)
qed

text \<open>
  Calls on pools without tokens, each evaluated.
\<close>

lemma add_liquidity_no_tokens:
  "add_liquidity [100, 100] (pool_250 0, heap_250 1000 1000) =
     Some (Inr 0, (pool_250 0)\<lparr>pool_x := 5, pool_admin_balances := 6\<rparr>,
           \<lparr>cells = (\<lambda>_. [])(0 := [1000, 1000], 1 := [0, 0], 2 := [1100, 1100], 4 := [0, 0],
               3 := [1100, 1100], 5 := [1100, 1100], 6 := [0, 0]),
            next_ref = 7\<rparr>)"
  by (simp add: add_liquidity_def calc_token_amount_def comp_defs heap_defs prog_defs solver_defs
      pool_250_def heap_250_def Let_def replicate_numeral)

lemma calc_token_amount_no_balances:
  "calc_token_amount [10 ^ 18, 10 ^ 18] False (pool_250 0, heap_250 0 0) =
     Some (Inl ZeroDivisionError, pool_250 0,
           \<lparr>cells = (\<lambda>_. [])(0 := [0, 0], 1 := [0, 0], 2 := [10 ^ 18, 10 ^ 18],
               3 := [10 ^ 18, 10 ^ 18]),
            next_ref = 4\<rparr>)"
  by (simp add: calc_token_amount_def comp_defs heap_defs prog_defs solver_defs pool_250_def
      heap_250_def Let_def replicate_numeral)

lemma get_D_mem_no_balances:
  "get_D_mem (pool_250 0) (load (heap_250 0 0) (pool_x (pool_250 0))) (pool_A (pool_250 0))
     = Some (Inr 0)"
  by (simp add: comp_defs heap_defs solver_defs pool_250_def heap_250_def Let_def)

text \<open>
  The theorem at the pool of balances \<^verbatim>\<open>[1000, 1000]\<close> and no tokens, where
  \<^verbatim>\<open>add_liquidity([100, 100])\<close> returns 0 and \<^verbatim>\<open>tokens\<close> is 0 afterwards, and at the pool of
  balances \<^verbatim>\<open>[0, 0]\<close> and no tokens, where \<^verbatim>\<open>D0\<close> is 0 and \<^verbatim>\<open>calc_token_amount([10^18, 10^18])\<close>
  raises.
\<close>

theorem calc_token_amount_on_zero_tokens_witness:
  "pool_tokens (pool_250 0) = 0
   \<and> (\<exists>s' h'. add_liquidity [100, 100] (pool_250 0, heap_250 1000 1000) = Some (Inr 0, s', h')
          \<and> pool_tokens s' = 0)
   \<and> get_D_mem (pool_250 0) (load (heap_250 0 0) (pool_x (pool_250 0))) (pool_A (pool_250 0))
       = Some (Inr 0)
   \<and> (\<exists>r st'. calc_token_amount [10 ^ 18, 10 ^ 18] False (pool_250 0, heap_250 0 0)
                = Some (r, st')
          \<and> (r = Inl IndexError \<or> r = Inl ZeroDivisionError))"
proof -
  have t: "pool_tokens (pool_250 0) = 0" by (simp add: pool_250_def)
  from calc_token_amount_on_zero_tokens [OF t] add_liquidity_no_tokens
  have a: "\<exists>s' h'. add_liquidity [100, 100] (pool_250 0, heap_250 1000 1000)
                = Some (Inr 0, s', h') \<and> pool_tokens s' = 0"
    by metis
  from calc_token_amount_on_zero_tokens [OF t] get_D_mem_no_balances
    calc_token_amount_no_balances
  have b: "\<exists>r st'. calc_token_amount [10 ^ 18, 10 ^ 18] False (pool_250 0, heap_250 0 0)
                = Some (r, st')
          \<and> (r = Inl IndexError \<or> r = Inl ZeroDivisionError)"
    by metis
  from t a b get_D_mem_no_balances show ?thesis by blast
qed

text \<open>
  C6 as stated fails.  On the pool of balances \<^verbatim>\<open>[1000, 1000]\<close> and no tokens,
  \<^verbatim>\<open>calc_token_amount([100, 100])\<close> returns 0, where the invariant of the balances after the
  deposit, \<^verbatim>\<open>[1100, 1100]\<close>, is 2200.  On the pool of balances \<^verbatim>\<open>[0, 0]\<close> and no tokens, where
  \<^verbatim>\<open>D0\<close> is 0, \<^verbatim>\<open>calc_token_amount([10^18, 10^18])\<close> raises \<^verbatim>\<open>ZeroDivisionError\<close>, with and
  without fees, and \<^verbatim>\<open>calc_token_amount([5])\<close> raises \<^verbatim>\<open>IndexError\<close>.
\<close>

theorem calc_token_amount_empty_pool:
  "(\<exists>st'. calc_token_amount [100, 100] False (pool_250 0, heap_250 1000 1000)
            = Some (Inr (0, None), st'))
   \<and> get_D_mem (pool_250 0) [1100, 1100] 250 = Some (Inr 2200)
   \<and> (\<exists>st'. calc_token_amount [10 ^ 18, 10 ^ 18] False (pool_250 0, heap_250 0 0)
            = Some (Inl ZeroDivisionError, st'))
   \<and> (\<exists>st'. calc_token_amount [10 ^ 18, 10 ^ 18] True (pool_250 0, heap_250 0 0)
            = Some (Inl ZeroDivisionError, st'))
   \<and> (\<exists>st'. calc_token_amount [5] False (pool_250 0, heap_250 0 0)
            = Some (Inl IndexError, st'))"
  by (simp add: calc_token_amount_def comp_defs heap_defs prog_defs solver_defs pool_250_def
      heap_250_def Let_def replicate_numeral)

section \<open>The minuend of \<^verbatim>\<open>calc_withdraw_one_coin\<close>\<close>

text \<open>
  The loop that shrinks the balances leaves the list \<open>shrink_range\<close>, and the conditional around
  it the list \<open>fee_shrink\<close>.
\<close>

lemma shrink_range_empty: "b < a \<Longrightarrow> shrink_range a b fee' D0 D1 new_y i xp = xp"
  unfolding shrink_range_def
  by (rule nth_equalityI) (auto simp: nth_enumerate_eq)

lemma shrink_range_step:
  assumes "0 \<le> a" "a \<le> b" "nat a < length xp"
  shows "shrink_range (a + 1) b fee' D0 D1 new_y i
           (xp[nat a := shrink_at fee' D0 D1 new_y i a (xp ! nat a)])
         = shrink_range a b fee' D0 D1 new_y i xp"
proof (intro nth_equalityI)
  show "length (shrink_range (a + 1) b fee' D0 D1 new_y i
           (xp[nat a := shrink_at fee' D0 D1 new_y i a (xp ! nat a)]))
        = length (shrink_range a b fee' D0 D1 new_y i xp)"
    by (simp add: shrink_range_def)
next
  fix k
  assume "k < length (shrink_range (a + 1) b fee' D0 D1 new_y i
           (xp[nat a := shrink_at fee' D0 D1 new_y i a (xp ! nat a)]))"
  then have k: "k < length xp" by (simp add: shrink_range_def)
  show "shrink_range (a + 1) b fee' D0 D1 new_y i
           (xp[nat a := shrink_at fee' D0 D1 new_y i a (xp ! nat a)]) ! k
        = shrink_range a b fee' D0 D1 new_y i xp ! k"
  proof (cases "k = nat a")
    case True
    with assms k show ?thesis by (simp add: shrink_range_def nth_enumerate_eq)
  next
    case False
    with assms k have "int k \<noteq> a" by auto
    with False assms k show ?thesis
      by (auto simp: shrink_range_def nth_enumerate_eq)
  qed
qed

lemma shrink_loop:
  assumes "for_each [a..b] (\<lambda>j.
             sbind (get_item r j) (\<lambda>xp_j.
             sbind (lift (floordiv (xp_j * D1) D0)) (\<lambda>q.
             sbind (get_item r j) (\<lambda>v.
             set_item r j (v - fee' * (if j = i then q - new_y else xp_j - q) div 10 ^ 10)))))
           (s, h) = Some (Inr u, st')"
    and "0 \<le> a"
  shows "fst st' = s \<and> load (snd st') r = shrink_range a b fee' D0 D1 new_y i (load h r)"
  using assms
proof (induction "nat (b + 1 - a)" arbitrary: a h)
  case 0
  then have "b < a" by simp
  with 0 show ?case by (auto simp: shrink_range_empty sret_def)
next
  case (Suc m)
  then have le: "a \<le> b" by simp
  then have up: "[a..b] = a # [a + 1..b]" by (simp add: upto_rec1)
  from Suc.prems(1) \<open>0 \<le> a\<close>
  obtain h1 where lt: "nat a < length (load h r)" and D0: "D0 \<noteq> 0"
    and h1: "h1 = store h r ((load h r)[nat a := shrink_at fee' D0 D1 new_y i a (load h r ! nat a)])"
    and rest: "for_each [a + 1..b] (\<lambda>j.
             sbind (get_item r j) (\<lambda>xp_j.
             sbind (lift (floordiv (xp_j * D1) D0)) (\<lambda>q.
             sbind (get_item r j) (\<lambda>v.
             set_item r j (v - fee' * (if j = i then q - new_y else xp_j - q) div 10 ^ 10)))))
           (s, h1) = Some (Inr u, st')"
    unfolding up
    by (auto simp: sbind_Inr_iff lift_Inr_iff get_item_Inr_iff set_item_Inr_iff py_get_Inr_iff
        floordiv_Inr_iff py_index_nonneg shrink_at_def)
  have m: "m = nat (b + 1 - (a + 1))" using Suc.hyps(2) by simp
  from Suc.hyps(1)[OF m rest] \<open>0 \<le> a\<close>
  have "fst st' = s" and "load (snd st') r = shrink_range (a + 1) b fee' D0 D1 new_y i (load h1 r)"
    by simp_all
  moreover have "load h1 r = (load h r)[nat a := shrink_at fee' D0 D1 new_y i a (load h r ! nat a)]"
    by (simp add: h1 load_def store_def)
  ultimately show ?case using shrink_range_step[OF \<open>0 \<le> a\<close> le lt] by simp
qed

lemma shrink_if:
  assumes "(if pool_fee s \<noteq> 0
            then sbind (lift (floordiv (pool_fee s * pool_n s) (4 * (pool_n s - 1))))
                   (\<lambda>fee'. for_each (py_range (pool_n s)) (\<lambda>j.
                      sbind (get_item r j) (\<lambda>xp_j.
                      sbind (lift (floordiv (xp_j * D1) D0)) (\<lambda>q.
                      sbind (get_item r j) (\<lambda>v.
                      set_item r j
                        (v - fee' * (if j = i then q - new_y else xp_j - q) div 10 ^ 10))))))
            else sret ()) (s, h1) = Some (Inr u, st1)"
  shows "fst st1 = s \<and> load (snd st1) r = fee_shrink s i D0 D1 new_y (load h1 r)"
proof (cases "pool_fee s \<noteq> 0")
  case False
  with assms show ?thesis by (auto simp: fee_shrink_def sret_def)
next
  case True
  with assms obtain fee' where
    fee': "fee' = pool_fee s * pool_n s div (4 * (pool_n s - 1))"
    and loop: "for_each [0..pool_n s - 1] (\<lambda>j.
                      sbind (get_item r j) (\<lambda>xp_j.
                      sbind (lift (floordiv (xp_j * D1) D0)) (\<lambda>q.
                      sbind (get_item r j) (\<lambda>v.
                      set_item r j
                        (v - fee' * (if j = i then q - new_y else xp_j - q) div 10 ^ 10)))))
             (s, h1) = Some (Inr u, st1)"
    by (auto simp: sbind_Inr_iff lift_Inr_iff floordiv_Inr_iff py_range_def)
  from shrink_loop[OF loop] True fee' show ?thesis
    by (simp add: fee_shrink_def Let_def)
qed

text \<open>
  C4, as amended.  \<^verbatim>\<open>xp_reduced = xp\<close> makes \<^verbatim>\<open>xp_reduced\<close> a second name of the list \<^verbatim>\<open>xp\<close>, so
  the loop over all coins \<open>j\<close>, the coin \<open>i\<close> among them, shrinks \<^verbatim>\<open>xp\<close> itself.  For every pool whose
  list \<^verbatim>\<open>x\<close> is on the heap, a call \<^verbatim>\<open>calc_withdraw_one_coin(token_amount, i, use_fee=True)\<close> that
  returns \<^verbatim>\<open>(dy, dy_fee)\<close> has
  \<open>dy = (xp_reduced[i] - get_y_D(A, i, xp_reduced, D1) - 1) * 10^18 // p[i]\<close>: the minuend is the
  entry \<open>i\<close> of the fee-shrunk list, not the balance before the shrink.  Here \<open>D0\<close> is the invariant
  of the pool, \<open>D1 = D0 - token_amount * D0 // tokens\<close>, \<open>new_y = get_y_D(A, i, xp, D1)\<close> on the
  balances before the shrink, and \<open>xp_reduced\<close> is \<open>fee_shrink\<close> of those balances.
\<close>

theorem calc_withdraw_one_coin_minuend:
  assumes ret: "calc_withdraw_one_coin token_amount i True (s, h) = Some (Inr (dy, dy_fee), st')"
    and x: "pool_x s < next_ref h"
  shows "\<exists>D0 q new_y y r_i p_i.
           pool_D s h None = Some (Inr D0)
         \<and> floordiv (token_amount * D0) (pool_tokens s) = Some (Inr q)
         \<and> get_y_D s (pool_A s) i (pool_xp s h) (D0 - q) = Some (Inr new_y)
         \<and> get_y_D s (pool_A s) i (fee_shrink s i D0 (D0 - q) new_y (pool_xp s h)) (D0 - q)
             = Some (Inr y)
         \<and> py_get (fee_shrink s i D0 (D0 - q) new_y (pool_xp s h)) i = Some (Inr r_i)
         \<and> py_get (pool_p s) i = Some (Inr p_i)
         \<and> dy = (r_i - y - 1) * 10 ^ 18 div p_i"
proof -
  let ?h1 = "snd (new_list (pool_xp s h) h)"
  have ld: "load ?h1 (next_ref h) = pool_xp s h"
    by (simp add: new_list_def load_def)
  have "pool_xp s ?h1 = pool_xp s h"
    using x by (simp add: pool_xp_def new_list_def load_def)
  then have D: "pool_D s ?h1 None = pool_D s h None"
    by (simp add: pool_D_def)
  show ?thesis
    using ret unfolding calc_withdraw_one_coin_def Let_def
    apply (simp add: run_iffs D ld)
    apply (elim exE conjE)
    apply (drule shrink_if)
    apply (simp add: ld floordiv_Inr_iff algebra_simps)
    done
qed

text \<open>
  The call \<^verbatim>\<open>calc_withdraw_one_coin(10^5, 0)\<close> on the pool of balances \<^verbatim>\<open>[10^6, 10^6]\<close> and
  \<open>2 * 10^6\<close> tokens, evaluated step by step.
\<close>

lemma calc_withdraw_one_coin_1e6:
  "calc_withdraw_one_coin 100000 0 True (pool_250 2000000, heap_250 1000000 1000000)
   = Some (Inr (99970, Some 20), pool_250 2000000,
        \<lparr>cells = (\<lambda>_. [])(0 := [1000000, 1000000], 1 := [0, 0], 2 := [999991, 999990]),
            next_ref = 3\<rparr>)"
  by (simp add: calc_withdraw_one_coin_def comp_defs heap_defs prog_defs solver_defs pool_250_def
      heap_250_def Let_def replicate_numeral)

lemma pool_D_1e6:
  "pool_D (pool_250 2000000) (heap_250 1000000 1000000) None = Some (Inr 2000000)"
  by (simp add: comp_defs heap_defs solver_defs pool_250_def heap_250_def Let_def replicate_numeral)

lemma pool_xp_1e6: "pool_xp (pool_250 2000000) (heap_250 1000000 1000000) = [1000000, 1000000]"
  by (simp add: pool_xp_def xp_of_def load_def pool_250_def heap_250_def replicate_numeral)

lemma get_y_D_1e6:
  "get_y_D (pool_250 2000000) 250 0 [1000000, 1000000] 1900000 = Some (Inr 900010)"
  by (simp add: comp_defs solver_defs pool_250_def Let_def)

lemma get_y_D_shrunk:
  "get_y_D (pool_250 2000000) 250 0 [999991, 999990] 1900000 = Some (Inr 900020)"
  by (simp add: comp_defs solver_defs pool_250_def Let_def)

lemma fee_shrink_1e6:
  "fee_shrink (pool_250 2000000) 0 2000000 1900000 900010 [1000000, 1000000]
    = [999991, 999990]"
  by (simp add: fee_shrink_def shrink_range_def shrink_at_def pool_250_def Let_def enumerate_eq_zip)

text \<open>
  The theorem at that call: it returns \<^verbatim>\<open>(99970, 20)\<close>, the shrunk list is
  \<^verbatim>\<open>[999991, 999990]\<close>, and \<open>99970 = 999991 - 900020 - 1\<close>.
\<close>

theorem calc_withdraw_one_coin_minuend_witness:
  "pool_x (pool_250 2000000) < next_ref (heap_250 1000000 1000000)
   \<and> (\<exists>st'. calc_withdraw_one_coin 100000 0 True
               (pool_250 2000000, heap_250 1000000 1000000)
             = Some (Inr (99970, Some 20), st'))
   \<and> fee_shrink (pool_250 2000000) 0 2000000 1900000 900010 [1000000, 1000000]
       = [999991, 999990]
   \<and> (\<exists>y r_i. get_y_D (pool_250 2000000) 250 0
                 (fee_shrink (pool_250 2000000) 0 2000000 1900000 900010 [1000000, 1000000])
                 1900000 = Some (Inr y)
          \<and> py_get (fee_shrink (pool_250 2000000) 0 2000000 1900000 900010 [1000000, 1000000])
                 0 = Some (Inr r_i)
          \<and> (99970 :: int) = (r_i - y - 1) * 10 ^ 18 div 10 ^ 18)"
proof -
  have x: "pool_x (pool_250 2000000) < next_ref (heap_250 1000000 1000000)"
    by (simp add: pool_250_def heap_250_def)
  have A: "pool_A (pool_250 2000000) = 250"
    and t: "pool_tokens (pool_250 2000000) = 2000000"
    and p: "py_get (pool_p (pool_250 2000000)) 0 = Some (Inr (10 ^ 18))"
    by (simp_all add: pool_250_def comp_defs replicate_numeral)
  from calc_withdraw_one_coin_minuend [OF calc_withdraw_one_coin_1e6 x]
  obtain D0 q new_y y r_i p_i where
    "pool_D (pool_250 2000000) (heap_250 1000000 1000000) None = Some (Inr D0)"
    "floordiv (100000 * D0) (pool_tokens (pool_250 2000000)) = Some (Inr q)"
    "get_y_D (pool_250 2000000) (pool_A (pool_250 2000000)) 0
       (pool_xp (pool_250 2000000) (heap_250 1000000 1000000)) (D0 - q) = Some (Inr new_y)"
    "get_y_D (pool_250 2000000) (pool_A (pool_250 2000000)) 0
       (fee_shrink (pool_250 2000000) 0 D0 (D0 - q) new_y
          (pool_xp (pool_250 2000000) (heap_250 1000000 1000000))) (D0 - q) = Some (Inr y)"
    "py_get (fee_shrink (pool_250 2000000) 0 D0 (D0 - q) new_y
          (pool_xp (pool_250 2000000) (heap_250 1000000 1000000))) 0 = Some (Inr r_i)"
    "py_get (pool_p (pool_250 2000000)) 0 = Some (Inr p_i)"
    "(99970 :: int) = (r_i - y - 1) * 10 ^ 18 div p_i"
    by blast
  then have "get_y_D (pool_250 2000000) 250 0
                 (fee_shrink (pool_250 2000000) 0 2000000 1900000 900010 [1000000, 1000000])
                 1900000 = Some (Inr y)
          \<and> py_get (fee_shrink (pool_250 2000000) 0 2000000 1900000 900010 [1000000, 1000000])
                 0 = Some (Inr r_i)
          \<and> (99970 :: int) = (r_i - y - 1) * 10 ^ 18 div 10 ^ 18"
    by (simp add: pool_D_1e6 pool_xp_1e6 A t p floordiv_Inr_iff get_y_D_1e6)
  with x calc_withdraw_one_coin_1e6 fee_shrink_1e6 show ?thesis by blast
qed

text \<open>
  C4 as stated fails.  That call returns \<open>dy = 99970\<close>.  The balance of coin 0 before the
  shrink is \<open>10^6\<close>, the list passed to the second \<^verbatim>\<open>get_y_D\<close> is \<^verbatim>\<open>[999991, 999990]\<close> with
  \<open>D1 = 1900000\<close>, and \<^verbatim>\<open>get_y_D\<close> returns 900020: with the balance before the shrink as the
  minuend, \<open>dy\<close> would be \<open>(10^6 - 900020 - 1) * 10^18 // 10^18 = 99979\<close>.
\<close>

theorem calc_withdraw_one_coin_not_original:
  "(\<exists>st'. calc_withdraw_one_coin 100000 0 True
             (pool_250 2000000, heap_250 1000000 1000000)
           = Some (Inr (99970, Some 20), st')
         \<and> load (snd st') 2 = [999991, 999990])
   \<and> pool_xp (pool_250 2000000) (heap_250 1000000 1000000) = [1000000, 1000000]
   \<and> pool_D (pool_250 2000000) (heap_250 1000000 1000000) None = Some (Inr 2000000)
   \<and> get_y_D (pool_250 2000000) 250 0 [999991, 999990] 1900000 = Some (Inr 900020)
   \<and> (1000000 - 900020 - 1) * 10 ^ 18 div 10 ^ 18 = (99979 :: int)"
  by (simp add: calc_withdraw_one_coin_1e6 pool_xp_1e6 pool_D_1e6 get_y_D_shrunk load_def)

section \<open>The arbitrage driver when the solver fails\<close>








section \<open>The volume cap of the arbitrage driver\<close>







text \<open>
  The driver on one pair \<open>(0, 1)\<close> with seed size 5, price target 2 and limit 1, on a pool
  whose price is 1, with the two solvers.
\<close>

lemmas driver_defs = multipair_optimal_arbitrage_def post_trade_price_error_multi_def
  use_snapshot_context_def sbind_def lift_def sret_def item_def isnan_def number_int_def
  float_int_def bnd_def ret_def raise_def pool_const_def fa_exact_def Let_def

lemma residual_at_hi:
  "map_option fst (post_trade_price_error_multi pool_const fa_exact
       [Float (Finite (10 ^ 18 + 1))] [Finite 2] [(0, 1)] ()) = Some (Inr [Finite (- 1)])"
  by (simp add: driver_defs)






end
